theory Spec2Isabelle
  imports Complex_Main "HOL-Library.Char_ord" "HOL-Library.Log_Nat"
begin

section \<open>JavaScript strings and numbers\<close>

text \<open>
  A JavaScript string is a sequence of UTF-16 code units. The model uses \<open>string\<close>
  (\<open>char list\<close>), so it covers the strings whose code units are below 256 (Latin-1);
  every literal of \<open>server.js\<close> that the model needs is in that range. The character
  classes below are the ECMAScript ones restricted to that range.
\<close>

definition is_digit :: "char \<Rightarrow> bool" where
  \<comment> \<open>\<open>\d\<close> and \<open>[0-9]\<close>\<close>
  "is_digit c = (CHR ''0'' \<le> c \<and> c \<le> CHR ''9'')"

definition is_space :: "char \<Rightarrow> bool" where
  \<comment> \<open>\<open>\s\<close>: tab, line feed, vertical tab, form feed, carriage return, space, no-break space\<close>
  "is_space c = (c \<in> set [CHR 0x09, CHR 0x0A, CHR 0x0B, CHR 0x0C, CHR 0x0D, CHR 0x20, CHR 0xA0])"

definition is_word :: "char \<Rightarrow> bool" where
  \<comment> \<open>\<open>\w\<close>: ASCII letters, digits and the underscore (also under the \<open>i\<close> flag)\<close>
  "is_word c = ((CHR ''a'' \<le> c \<and> c \<le> CHR ''z'') \<or> (CHR ''A'' \<le> c \<and> c \<le> CHR ''Z'')
                \<or> is_digit c \<or> c = CHR ''_'')"

definition is_line_terminator :: "char \<Rightarrow> bool" where
  "is_line_terminator c = (c = CHR 0x0A \<or> c = CHR 0x0D)"

definition canonicalize :: "char \<Rightarrow> char" where
  \<comment> \<open>case folding of the \<open>i\<close> flag (no \<open>u\<close> flag): a character maps to its upper case,
      and a character outside ASCII never maps into ASCII. The literals of the patterns
      are ASCII, so only the ASCII letters matter.\<close>
  "canonicalize c =
     (if CHR ''a'' \<le> c \<and> c \<le> CHR ''z'' then char_of (of_char c - (32::nat)) else c)"

definition lower_char :: "char \<Rightarrow> char" where
  \<comment> \<open>\<open>toLowerCase\<close> on one code unit below 256: A-Z and the Latin-1 capitals
      0xC0-0xDE (but not the multiplication sign 0xD7) move up by 32.\<close>
  "lower_char c =
     (if (CHR ''A'' \<le> c \<and> c \<le> CHR ''Z'') \<or> (CHR 0xC0 \<le> c \<and> c \<le> CHR 0xDE \<and> c \<noteq> CHR 0xD7)
      then char_of (of_char c + (32::nat)) else c)"

definition toLowerCase :: "string \<Rightarrow> string" where
  "toLowerCase s = map lower_char s"

fun starts_with :: "string \<Rightarrow> string \<Rightarrow> bool" where
  "starts_with s [] = True"
| "starts_with [] (p # ps) = False"
| "starts_with (c # cs) (p # ps) = (if c = p then starts_with cs ps else False)"

fun starts_with_ci :: "string \<Rightarrow> string \<Rightarrow> bool" where
  \<comment> \<open>\<open>starts_with\<close> up to the case folding of the \<open>i\<close> flag\<close>
  "starts_with_ci s [] = True"
| "starts_with_ci [] (p # ps) = False"
| "starts_with_ci (c # cs) (p # ps) =
     (if canonicalize c = canonicalize p then starts_with_ci cs ps else False)"

fun str_includes :: "string \<Rightarrow> string \<Rightarrow> bool" where
  \<comment> \<open>\<open>s.includes(p)\<close>\<close>
  "str_includes [] p = starts_with [] p"
| "str_includes (c # cs) p = (if starts_with (c # cs) p then True else str_includes cs p)"

definition trim :: "string \<Rightarrow> string" where
  "trim s = rev (dropWhile is_space (rev (dropWhile is_space s)))"

fun replace_first :: "char \<Rightarrow> char \<Rightarrow> string \<Rightarrow> string" where
  \<comment> \<open>\<open>s.replace(a, b)\<close> with one-character strings: only the first occurrence is replaced\<close>
  "replace_first a b [] = []"
| "replace_first a b (c # cs) = (if c = a then b # cs else c # replace_first a b cs)"

text \<open>
  A JavaScript number is a double. A finite double is kept as the rational it denotes
  (the two zeros are one value: nothing in \<open>server.js\<close> tells them apart), next to \<open>NaN\<close>
  and the two infinities. \<open>to_double\<close> is the Number value for a real of ECMAScript
  (IEEE 754 binary64, round to nearest, ties to even): 53 significant bits, the least
  exponent \<open>-1074\<close> of the subnormals, so that a real of magnitude at most \<open>2^-1075\<close>
  becomes zero, and an infinity once the rounded magnitude reaches \<open>2^1024\<close>.
\<close>

datatype jsnum = NaN | Num rat | PInf | NInf

definition round_div :: "int \<Rightarrow> int \<Rightarrow> int" where
  \<comment> \<open>the integer nearest to \<open>n / d\<close> for \<open>0 \<le> n\<close> and \<open>0 < d\<close>, the even one of two\<close>
  "round_div n d =
     (let f = n div d; r = n mod d
      in if 2 * r < d then f else if d < 2 * r then f + 1 else if even f then f else f + 1)"

definition pow2 :: "int \<Rightarrow> rat" where
  \<comment> \<open>\<open>2^e\<close> for an integer exponent\<close>
  "pow2 e = (if 0 \<le> e then of_int (2 ^ nat e) else 1 / of_int (2 ^ nat (- e)))"

definition ilog2 :: "int \<Rightarrow> int \<Rightarrow> int" where
  \<comment> \<open>the binary exponent of \<open>n / d\<close> for positive \<open>n\<close> and \<open>d\<close>: the \<open>k\<close> with
      \<open>2^k \<le> n / d < 2^(k + 1)\<close>\<close>
  "ilog2 n d =
     (let k = bitlen n - bitlen d
      in if (if 0 \<le> k then d * 2 ^ nat k \<le> n else d \<le> n * 2 ^ nat (- k)) then k else k - 1)"

definition nearest :: "int \<Rightarrow> int \<Rightarrow> rat" where
  \<comment> \<open>\<open>n / d\<close> rounded to 53 significant bits, to a multiple of \<open>2^-1074\<close> when it is below
      \<open>2^-1022\<close>; the exponent has no upper bound here\<close>
  "nearest n d =
     (let e = max (- 1074) (ilog2 n d - 52);
          m = (if 0 \<le> e then round_div n (d * 2 ^ nat e) else round_div (n * 2 ^ nat (- e)) d)
      in of_int m * pow2 e)"

definition overflow_threshold :: rat where
  "overflow_threshold = of_int (2 ^ 1024)"

definition to_double :: "rat \<Rightarrow> jsnum" where
  "to_double q =
     (if q = 0 then Num 0
      else let (n, d) = quotient_of \<bar>q\<bar>; v = nearest n d
           in if overflow_threshold \<le> v then (if 0 < q then PInf else NInf)
              else Num (if 0 < q then v else - v))"

definition digit_val :: "char \<Rightarrow> nat" where
  "digit_val c = of_char c - 48"

definition digits_val :: "string \<Rightarrow> int" where
  \<comment> \<open>the number a string of decimal digits denotes, read left to right\<close>
  "digits_val s = foldl (\<lambda>n c. 10 * n + int (digit_val c)) 0 s"

definition decimal :: "string \<Rightarrow> string \<Rightarrow> rat" where
  \<comment> \<open>the real written \<open>d1.d2\<close> in decimal notation (the mathematical value of the
      literal, before any rounding)\<close>
  "decimal d1 d2
     = of_int (digits_val d1) + of_int (digits_val d2) / of_int (10 ^ length d2)"

definition parseFloat :: "string \<Rightarrow> jsnum" where
  \<comment> \<open>The longest prefix \<open>digits [. digits]\<close> or \<open>. digits\<close> is read, the rest is ignored;
      no such prefix gives \<open>NaN\<close>; the result is the double nearest to the real that the
      prefix denotes, however many digits it has. Leading white space, a sign, an exponent
      and \<open>Infinity\<close> are left out: the argument is made of digits, commas and dots only.\<close>
  "parseFloat s =
     (let ip = takeWhile is_digit s;
          r = dropWhile is_digit s;
          fp = (case r of c # r' \<Rightarrow> if c = CHR ''.'' then takeWhile is_digit r' else [] | [] \<Rightarrow> [])
      in if ip = [] \<and> fp = [] then NaN else to_double (decimal ip fp))"

definition ToNumber :: "string \<Rightarrow> jsnum" where
  \<comment> \<open>\<open>ToNumber\<close> of a string, for the strings a \<open>\d\<close> group captures: a non-empty
      string of decimal digits is the double nearest to its decimal value (leading zeros
      allowed). Other strings are not modelled and read as \<open>NaN\<close>.\<close>
  "ToNumber s =
     (if s \<noteq> [] \<and> list_all is_digit s then to_double (of_int (digits_val s)) else NaN)"

fun js_minus1 :: "jsnum \<Rightarrow> jsnum" where
  \<comment> \<open>\<open>x - 1\<close>\<close>
  "js_minus1 NaN = NaN"
| "js_minus1 (Num q) = to_double (q - 1)"
| "js_minus1 PInf = PInf"
| "js_minus1 NInf = NInf"

fun js_add :: "jsnum \<Rightarrow> jsnum \<Rightarrow> jsnum" where
  \<comment> \<open>\<open>x + y\<close> on numbers: the exact sum of two doubles, rounded\<close>
  "js_add (Num a) (Num b) = to_double (a + b)"
| "js_add NaN y = NaN"
| "js_add x NaN = NaN"
| "js_add PInf NInf = NaN"
| "js_add NInf PInf = NaN"
| "js_add PInf y = PInf"
| "js_add x PInf = PInf"
| "js_add NInf y = NInf"
| "js_add x NInf = NInf"

fun js_positive :: "jsnum \<Rightarrow> bool" where
  \<comment> \<open>\<open>0 < x\<close>\<close>
  "js_positive (Num q) = (0 < q)"
| "js_positive PInf = True"
| "js_positive x = False"

fun truthy_num :: "jsnum option \<Rightarrow> bool" where
  \<comment> \<open>truthiness of a property that is \<open>undefined\<close> or a number: \<open>undefined\<close>, \<open>NaN\<close>
      and zero are falsy\<close>
  "truthy_num None = False"
| "truthy_num (Some NaN) = False"
| "truthy_num (Some (Num q)) = (q \<noteq> 0)"
| "truthy_num (Some x) = True"

section \<open>Dates\<close>

text \<open>
  A \<open>Date\<close> holds a time value in milliseconds or is invalid (time value \<open>NaN\<close>).
  \<open>new Date(year, month, day)\<close> reads its arguments in local time; the offset of the
  host's time zone is not part of the source, so the model keeps the local time value.
\<close>

datatype jsdate = InvalidDate | TimeValue int

definition msPerDay :: int where
  "msPerDay = 86400000"

definition DayFromYear :: "int \<Rightarrow> int" where
  "DayFromYear y = 365 * (y - 1970) + (y - 1969) div 4 - (y - 1901) div 100 + (y - 1601) div 400"

definition InLeapYear :: "int \<Rightarrow> bool" where
  "InLeapYear y = (y mod 4 = 0 \<and> (y mod 100 \<noteq> 0 \<or> y mod 400 = 0))"

definition month_start :: "bool \<Rightarrow> nat \<Rightarrow> int" where
  \<comment> \<open>day within the year of the first day of month \<open>mn\<close> (0 = January)\<close>
  "month_start leap mn =
     [0, 31, 59, 90, 120, 151, 181, 212, 243, 273, 304, 334] ! mn
       + (if leap \<and> 2 \<le> mn then 1 else 0)"

definition MakeDay :: "int \<Rightarrow> int \<Rightarrow> int \<Rightarrow> int" where
  \<comment> \<open>ECMAScript \<open>MakeDay\<close>: months beyond 0..11 carry into the year, and the day of the
      month is added to the first day of that month without any check\<close>
  "MakeDay year month date =
     (let ym = year + month div 12; mn = nat (month mod 12)
      in DayFromYear ym + month_start (InLeapYear ym) mn + date - 1)"

definition ToIntegerOrInfinity :: "rat \<Rightarrow> int" where
  "ToIntegerOrInfinity q = (if q < 0 then - \<lfloor>- q\<rfloor> else \<lfloor>q\<rfloor>)"

fun new_Date :: "jsnum \<Rightarrow> jsnum \<Rightarrow> jsnum \<Rightarrow> jsdate" where
  \<comment> \<open>\<open>new Date(year, month, day)\<close>: a \<open>NaN\<close> or infinite argument gives an invalid
      date; a year in 0..99 means 1900 + year; the time value is clipped to 8.64e15 ms\<close>
  "new_Date (Num y) (Num m) (Num d) =
     (let yi = ToIntegerOrInfinity y;
          yr = (if 0 \<le> yi \<and> yi \<le> 99 then 1900 + yi else yi);
          tv = MakeDay yr (ToIntegerOrInfinity m) (ToIntegerOrInfinity d) * msPerDay
      in if \<bar>tv\<bar> \<le> 8640000000000000 then TimeValue tv else InvalidDate)"
| "new_Date _ _ _ = InvalidDate"

section \<open>Regular expressions\<close>

text \<open>
  The patterns of \<open>server.js\<close> are built from literals, character classes, bounded and
  unbounded repetition of one character class (greedy or lazy), sequence, alternative,
  capturing groups, an optional part and the end of input. \<open>rx_run\<close> is the backtracking
  matcher of ECMAScript at one start position: it lists every way to match, in the order
  in which backtracking tries them, as the captured groups and the rest of the input.
  \<open>rx_match\<close> is \<open>String.prototype.match\<close> for a pattern without the \<open>g\<close> flag: the
  first way at the leftmost start position that has one, as the list of the groups 1, 2, ...
\<close>

datatype cclass = Digit | Space | Word | AnyChar | NoNewline | DigitComma

fun in_class :: "cclass \<Rightarrow> char \<Rightarrow> bool" where
  "in_class Digit c = is_digit c"
| "in_class Space c = is_space c"
| "in_class Word c = is_word c"
| "in_class AnyChar c = True"
| "in_class NoNewline c = (\<not> is_line_terminator c)"
| "in_class DigitComma c = (is_digit c \<or> c = CHR '','')"

datatype regex =
    Lit string
  | LitI string
  | Rep bool nat "nat option" cclass
  | Seq regex regex
  | Alt regex regex
  | Grp regex
  | Opt regex
  | Eoi
  | Eps

fun rep_counts :: "bool \<Rightarrow> nat \<Rightarrow> nat option \<Rightarrow> nat \<Rightarrow> nat list" where
  \<comment> \<open>how many characters a repetition may take when \<open>avail\<close> characters of the class
      follow: most first when greedy, fewest first when lazy\<close>
  "rep_counts greedy mn mx avail =
     (let hi = (case mx of None \<Rightarrow> avail | Some m \<Rightarrow> min m avail)
      in if greedy then rev [mn..<Suc hi] else [mn..<Suc hi])"

fun rx_run :: "regex \<Rightarrow> string \<Rightarrow> (string list \<times> string) list" where
  "rx_run (Lit l) s = (if starts_with s l then [([], drop (length l) s)] else [])"
| "rx_run (LitI l) s =
     (if starts_with_ci s l then [([], drop (length l) s)] else [])"
| "rx_run (Rep greedy mn mx c) s =
     map (\<lambda>k. ([], drop k s)) (rep_counts greedy mn mx (length (takeWhile (in_class c) s)))"
| "rx_run (Seq r1 r2) s =
     concat (map (\<lambda>(c1, s1). map (\<lambda>(c2, s2). (c1 @ c2, s2)) (rx_run r2 s1)) (rx_run r1 s))"
| "rx_run (Alt r1 r2) s = rx_run r1 s @ rx_run r2 s"
| "rx_run (Grp r) s =
     map (\<lambda>(c, s'). (take (length s - length s') s # c, s')) (rx_run r s)"
| "rx_run (Opt r) s = rx_run r s @ [([], s)]"
| "rx_run Eoi s = (if s = [] then [([], [])] else [])"
| "rx_run Eps s = [([], s)]"

fun rx_match :: "regex \<Rightarrow> string \<Rightarrow> string list option" where
  "rx_match r [] = (case rx_run r [] of [] \<Rightarrow> None | (caps, _) # _ \<Rightarrow> Some caps)"
| "rx_match r (c # cs) =
     (case rx_run r (c # cs) of [] \<Rightarrow> rx_match r cs | (caps, _) # _ \<Rightarrow> Some caps)"

fun seqs :: "regex list \<Rightarrow> regex" where
  "seqs [] = Eps"
| "seqs (r # rs) = Seq r (seqs rs)"

definition value_rx :: regex where
  \<comment> \<open>\<open>/R\$\s*([0-9,]+\.?[0-9]*)/i\<close>\<close>
  "value_rx = seqs [LitI ''R$'', Rep True 0 None Space,
                    Grp (seqs [Rep True 1 None DigitComma, Opt (Lit ''.''), Rep True 0 None Digit])]"

definition uber_route_rx :: regex where
  \<comment> \<open>\<open>/(?:De|From):\s*(.+?)\s*(?:Para|To):\s*(.+?)(?:\n|$)/is\<close>\<close>
  "uber_route_rx =
     seqs [Alt (LitI ''De'') (LitI ''From''), LitI '':'', Rep True 0 None Space,
           Grp (Rep False 1 None AnyChar), Rep True 0 None Space,
           Alt (LitI ''Para'') (LitI ''To''), LitI '':'', Rep True 0 None Space,
           Grp (Rep False 1 None AnyChar), Alt (Lit [CHR 0x0A]) Eoi]"

definition uber_date_rx :: regex where
  \<comment> \<open>\<open>/(\d{1,2})\s+de\s+(\w+)\s+de\s+(\d{4})/i\<close>\<close>
  "uber_date_rx =
     seqs [Grp (Rep True 1 (Some 2) Digit), Rep True 1 None Space, LitI ''de'',
           Rep True 1 None Space, Grp (Rep True 1 None Word), Rep True 1 None Space,
           LitI ''de'', Rep True 1 None Space, Grp (Rep True 4 (Some 4) Digit)]"

definition origin99_rx :: regex where
  \<comment> \<open>\<open>/(?:Origem|Partida):\s*(.+?)(?:\n|$)/i\<close>\<close>
  "origin99_rx =
     seqs [Alt (LitI ''Origem'') (LitI ''Partida''), LitI '':'', Rep True 0 None Space,
           Grp (Rep False 1 None NoNewline), Alt (Lit [CHR 0x0A]) Eoi]"

definition dest99_rx :: regex where
  \<comment> \<open>\<open>/(?:Destino|Chegada):\s*(.+?)(?:\n|$)/i\<close>\<close>
  "dest99_rx =
     seqs [Alt (LitI ''Destino'') (LitI ''Chegada''), LitI '':'', Rep True 0 None Space,
           Grp (Rep False 1 None NoNewline), Alt (Lit [CHR 0x0A]) Eoi]"

definition date99_rx :: regex where
  \<comment> \<open>\<open>/(\d{1,2})\/(\d{1,2})\/(\d{4})/\<close>\<close>
  "date99_rx =
     seqs [Grp (Rep True 1 (Some 2) Digit), Lit ''/'', Grp (Rep True 1 (Some 2) Digit),
           Lit ''/'', Grp (Rep True 4 (Some 4) Digit)]"

section \<open>The receipt parsers\<close>

record ride =
  platform :: string
  val :: "jsnum option"
  origin :: "string option"
  destination :: "string option"
  datetime :: "jsdate option"
  raw_email :: "string option"

definition new_ride :: "string \<Rightarrow> ride" where
  \<comment> \<open>\<open>{ platform: p }\<close>: every other property is \<open>undefined\<close>\<close>
  "new_ride p = \<lparr>platform = p, val = None, origin = None, destination = None,
                  datetime = None, raw_email = None\<rparr>"

definition match_value :: "string \<Rightarrow> string \<Rightarrow> string list option" where
  \<comment> \<open>\<open>text.match(rx) || html.match(rx)\<close>: the HTML is searched only when the text has no match\<close>
  "match_value text html =
     (case rx_match value_rx text of Some m \<Rightarrow> Some m | None \<Rightarrow> rx_match value_rx html)"

definition set_value :: "string list option \<Rightarrow> ride \<Rightarrow> ride" where
  \<comment> \<open>lines 58-60 and 91-93\<close>
  "set_value valueMatch ride =
     (case valueMatch of
        Some (g1 # _) \<Rightarrow> ride\<lparr>val := Some (parseFloat (replace_first CHR '','' CHR ''.'' g1))\<rparr>
      | _ \<Rightarrow> ride)"

definition months :: "string \<Rightarrow> nat option" where
  \<comment> \<open>the table of lines 72-76; 0xE7 is the c with cedilla of the third name\<close>
  "months = map_of
     [(''janeiro'', 0), (''fevereiro'', 1), (''mar'' @ [CHR 0xE7] @ ''o'', 2), (''abril'', 3),
      (''maio'', 4), (''junho'', 5), (''julho'', 6), (''agosto'', 7),
      (''setembro'', 8), (''outubro'', 9), (''novembro'', 10), (''dezembro'', 11)]"

definition month_number :: "string \<Rightarrow> jsnum" where
  \<comment> \<open>\<open>months[name]\<close> as the \<open>Date\<close> constructor reads it: a name of the table is its
      index; any other name is \<open>undefined\<close> (or a property inherited from
      \<open>Object.prototype\<close>, a function or an object), which \<open>ToNumber\<close> turns into \<open>NaN\<close>\<close>
  "month_number name = (case months name of Some i \<Rightarrow> Num (of_int (int i)) | None \<Rightarrow> NaN)"

definition parseUberReceipt :: "string \<Rightarrow> string \<Rightarrow> ride option" where
  "parseUberReceipt text html =
     (let ride = set_value (match_value text html) (new_ride ''uber'');
          ride = (case rx_match uber_route_rx text of
                    Some (g1 # g2 # _) \<Rightarrow> ride\<lparr>origin := Some (trim g1), destination := Some (trim g2)\<rparr>
                  | _ \<Rightarrow> ride);
          ride = (case rx_match uber_date_rx text of
                    Some (g1 # g2 # g3 # _) \<Rightarrow>
                      ride\<lparr>datetime :=
                        Some (new_Date (ToNumber g3) (month_number (toLowerCase g2)) (ToNumber g1))\<rparr>
                  | _ \<Rightarrow> ride)
      in if truthy_num (val ride) then Some ride else None)"

definition parse99Receipt :: "string \<Rightarrow> string \<Rightarrow> ride option" where
  "parse99Receipt text html =
     (let ride = set_value (match_value text html) (new_ride ''99'');
          ride = (case rx_match origin99_rx text of
                    Some (g1 # _) \<Rightarrow> ride\<lparr>origin := Some (trim g1)\<rparr> | _ \<Rightarrow> ride);
          ride = (case rx_match dest99_rx text of
                    Some (g1 # _) \<Rightarrow> ride\<lparr>destination := Some (trim g1)\<rparr> | _ \<Rightarrow> ride);
          ride = (case rx_match date99_rx text of
                    Some (g1 # g2 # g3 # _) \<Rightarrow>
                      ride\<lparr>datetime :=
                        Some (new_Date (ToNumber g3) (js_minus1 (ToNumber g2)) (ToNumber g1))\<rparr>
                  | _ \<Rightarrow> ride)
      in if truthy_num (val ride) then Some ride else None)"

section \<open>The store\<close>

text \<open>
  The two tables of lines 25-43 as lists of rows. A column that may hold \<open>NULL\<close> is an
  option; \<open>insert_ride\<close> refuses a \<open>NULL\<close> in a column declared \<open>NOT NULL\<close>, as SQLite
  does. The column \<open>created_at\<close> and the type affinity of the columns are left out. The
  column \<open>value\<close> holds a double (see \<open>jsnum\<close>), finite or infinite; \<open>NaN\<close> is stored as
  \<open>NULL\<close>.
\<close>

record user =
  u_id :: int
  u_email :: string
  u_unique_email :: string

datatype stored_time = TimeMs int | TimeText string

record ride_row =
  r_id :: int
  r_user_id :: int
  r_platform :: "string option"
  r_value :: "jsnum option"
  r_origin :: "string option"
  r_destination :: "string option"
  r_datetime :: "stored_time option"
  r_raw_email :: "string option"

record db =
  users :: "user list"
  rides :: "ride_row list"
  rides_seq :: int

datatype error = Error string

definition msg_user_not_found :: string where
  \<comment> \<open>the message of lines 137, 194, 220, 243 and 280\<close>
  "msg_user_not_found = ''Usu'' @ [CHR 0xE1] @ ''rio n'' @ [CHR 0xE3] @ ''o encontrado''"

definition msg_not_extracted :: string where
  \<comment> \<open>the message of line 154\<close>
  "msg_not_extracted =
     ''N'' @ [CHR 0xE3] @ ''o foi poss'' @ [CHR 0xED] @ ''vel extrair informa''
       @ [CHR 0xE7, CHR 0xF5] @ ''es do email''"

definition msg_constraint :: "string \<Rightarrow> string" where
  \<comment> \<open>the error of the store when a \<open>NOT NULL\<close> column of \<open>rides\<close> would receive \<open>NULL\<close>\<close>
  "msg_constraint column = ''SQLITE_CONSTRAINT: NOT NULL constraint failed: rides.'' @ column"

definition get_user_by_unique_email :: "db \<Rightarrow> string option \<Rightarrow> user option" where
  \<comment> \<open>\<open>SELECT id FROM users WHERE unique_email = ?\<close>; an \<open>undefined\<close> parameter is
      \<open>NULL\<close> and equals no address\<close>
  "get_user_by_unique_email d e =
     (case e of None \<Rightarrow> None | Some a \<Rightarrow> find (\<lambda>u. u_unique_email u = a) (users d))"

definition get_user :: "db \<Rightarrow> string option \<Rightarrow> user option" where
  \<comment> \<open>\<open>SELECT id FROM users WHERE email = ? OR unique_email = ?\<close>, of which \<open>db.get\<close>
      takes the first row. Both columns are \<open>UNIQUE\<close>, so at most two users match; SQLite
      answers the query from the two indexes in turn, the user with that \<open>email\<close> before
      the user with that \<open>unique_email\<close>.\<close>
  "get_user d e =
     (case e of None \<Rightarrow> None
      | Some a \<Rightarrow>
          (case find (\<lambda>u. u_email u = a) (users d) of
             Some u \<Rightarrow> Some u
           | None \<Rightarrow> find (\<lambda>u. u_unique_email u = a) (users d)))"

definition insert_ride ::
  "db \<Rightarrow> int \<Rightarrow> string option \<Rightarrow> jsnum option \<Rightarrow> string option \<Rightarrow> string option
      \<Rightarrow> stored_time option \<Rightarrow> string option \<Rightarrow> error + (db \<times> int)" where
  \<comment> \<open>\<open>INSERT INTO rides (user_id, platform, value, origin, destination, datetime,
      raw_email)\<close> under the constraints of lines 34-39, which are checked in the order of
      the columns; the result carries \<open>this.lastID\<close>\<close>
  "insert_ride d uid p v orig dest dt raw =
     (if p = None then Inl (Error (msg_constraint ''platform''))
      else if v = None then Inl (Error (msg_constraint ''value''))
      else if dt = None then Inl (Error (msg_constraint ''datetime''))
      else let i = rides_seq d + 1;
               row = \<lparr>r_id = i, r_user_id = uid, r_platform = p, r_value = v, r_origin = orig,
                      r_destination = dest, r_datetime = dt, r_raw_email = raw\<rparr>
           in Inr (d\<lparr>rides := rides d @ [row], rides_seq := i\<rparr>, i))"

fun bind_num :: "jsnum option \<Rightarrow> jsnum option" where
  \<comment> \<open>a number or \<open>undefined\<close> as a statement parameter: \<open>undefined\<close> and \<open>NaN\<close> are
      bound as \<open>NULL\<close>, any other double as itself\<close>
  "bind_num None = None"
| "bind_num (Some NaN) = None"
| "bind_num (Some x) = Some x"

fun bind_date :: "jsdate \<Rightarrow> stored_time option" where
  \<comment> \<open>a \<open>Date\<close> as a statement parameter: its time value\<close>
  "bind_date InvalidDate = None"
| "bind_date (TimeValue t) = Some (TimeMs t)"

section \<open>The extraction pipeline\<close>

text \<open>
  \<open>MailParser\<close> is a library; what it makes of the raw email is a parameter
  (\<open>mailparser\<close>) that returns the four properties \<open>processEmail\<close> reads:
  \<open>mail.from?.text\<close>, \<open>mail.subject\<close>, \<open>mail.text\<close> and \<open>mail.html\<close>, each \<open>None\<close> when
  it is \<open>undefined\<close> (a parser whose \<open>from\<close> carries no \<open>text\<close> leaves the subject as the
  only place that can name a platform). \<open>new Date()\<close> is the parameter \<open>now\<close>. The promise of \<open>processEmail\<close> is its result: \<open>Inl\<close> for
  \<open>reject\<close>, \<open>Inr\<close> for \<open>resolve\<close>, next to the store it leaves behind.
\<close>

record mail =
  mail_from :: "string option"
  mail_subject :: "string option"
  mail_text :: "string option"
  mail_html :: "string option"

definition str_or_empty :: "string option \<Rightarrow> string" where
  \<comment> \<open>\<open>x || ''\<close>\<close>
  "str_or_empty x = (case x of Some s \<Rightarrow> s | None \<Rightarrow> [])"

definition extract_with ::
  "(string \<Rightarrow> string \<Rightarrow> ride option) \<Rightarrow> (string \<Rightarrow> string \<Rightarrow> ride option) \<Rightarrow> mail \<Rightarrow> ride option" where
  \<comment> \<open>lines 117-129, with the two parsers as parameters\<close>
  "extract_with parseUber parse99 m =
     (let from = toLowerCase (str_or_empty (mail_from m));
          subject = toLowerCase (str_or_empty (mail_subject m));
          text = str_or_empty (mail_text m);
          html = str_or_empty (mail_html m)
      in if str_includes from ''uber'' \<or> str_includes subject ''uber'' then parseUber text html
         else if str_includes from ''99'' \<or> str_includes subject ''99'' then parse99 text html
         else None)"

definition extract_ride :: "mail \<Rightarrow> ride option" where
  "extract_ride = extract_with parseUberReceipt parse99Receipt"

definition processEmail_with ::
  "(string \<Rightarrow> string \<Rightarrow> ride option) \<Rightarrow> (string \<Rightarrow> string \<Rightarrow> ride option) \<Rightarrow> (string \<Rightarrow> mail)
      \<Rightarrow> int \<Rightarrow> db \<Rightarrow> string \<Rightarrow> string option \<Rightarrow> (error + ride \<times> int) \<times> db" where
  \<comment> \<open>lines 112-161; the result of \<open>resolve\<close> is the ride and its \<open>id\<close>\<close>
  "processEmail_with parseUber parse99 mailparser now d rawEmail userEmail =
     (case extract_with parseUber parse99 (mailparser rawEmail) of
        Some ride0 \<Rightarrow>
          (let ride = ride0\<lparr>raw_email := Some rawEmail\<rparr>
           in case get_user_by_unique_email d userEmail of
                None \<Rightarrow> (Inl (Error msg_user_not_found), d)
              | Some u \<Rightarrow>
                  (case insert_ride d (u_id u) (Some (platform ride)) (bind_num (val ride))
                          (origin ride) (destination ride)
                          (bind_date (case datetime ride of Some dt \<Rightarrow> dt | None \<Rightarrow> TimeValue now))
                          (raw_email ride) of
                     Inl err \<Rightarrow> (Inl err, d)
                   | Inr (d', lastID) \<Rightarrow> (Inr (ride, lastID), d')))
      | None \<Rightarrow> (Inl (Error msg_not_extracted), d))"

definition processEmail ::
  "(string \<Rightarrow> mail) \<Rightarrow> int \<Rightarrow> db \<Rightarrow> string \<Rightarrow> string option \<Rightarrow> (error + ride \<times> int) \<times> db" where
  "processEmail = processEmail_with parseUberReceipt parse99Receipt"

section \<open>The routes\<close>

datatype 'a reply = Reply 'a | Failure nat string

definition webhook_email ::
  "(string \<Rightarrow> mail) \<Rightarrow> int \<Rightarrow> db \<Rightarrow> string option \<Rightarrow> string option \<Rightarrow> string
      \<Rightarrow> (ride \<times> int) reply \<times> db" where
  \<comment> \<open>\<open>POST /api/webhook/email\<close>, lines 202-212: the caller of \<open>processEmail\<close> sees the
      message of the error only\<close>
  "webhook_email mailparser now d header_to query_to rawEmail =
     (let toEmail = (case header_to of Some h \<Rightarrow> if h \<noteq> [] then Some h else query_to
                     | None \<Rightarrow> query_to)
      in case processEmail mailparser now d rawEmail toEmail of
           (Inr ride, d') \<Rightarrow> (Reply ride, d')
         | (Inl (Error message), d') \<Rightarrow> (Failure 400 message, d'))"

record ride_body =
  b_userEmail :: "string option"
  b_platform :: "string option"
  b_value :: "jsnum option"
  b_origin :: "string option"
  b_destination :: "string option"
  b_datetime :: "string option"

definition post_ride :: "int \<Rightarrow> db \<Rightarrow> ride_body \<Rightarrow> (int \<times> ride_body) reply \<times> db" where
  \<comment> \<open>\<open>POST /api/rides\<close>, lines 236-264. The body is taken with the types the table
      declares (strings and a number); a property that is missing or \<open>null\<close> is \<open>None\<close>.\<close>
  "post_ride now d body =
     (case get_user d (b_userEmail body) of
        None \<Rightarrow> (Failure 404 msg_user_not_found, d)
      | Some u \<Rightarrow>
          (case insert_ride d (u_id u) (b_platform body) (bind_num (b_value body)) (b_origin body)
                  (b_destination body)
                  (case b_datetime body of
                     Some t \<Rightarrow> if t \<noteq> [] then Some (TimeText t) else Some (TimeMs now)
                   | None \<Rightarrow> Some (TimeMs now))
                  None of
             Inl (Error message) \<Rightarrow> (Failure 500 message, d)
           | Inr (d', lastID) \<Rightarrow> (Reply (lastID, body), d')))"

definition delete_ride :: "(string \<Rightarrow> int option) \<Rightarrow> db \<Rightarrow> string \<Rightarrow> (bool \<times> nat) reply \<times> db" where
  \<comment> \<open>\<open>DELETE /api/rides/:id\<close>, lines 267-272. The path parameter is a string; \<open>to_key\<close>
      is the integer SQLite compares it as (\<open>None\<close> when it is not numeric). The reply is
      \<open>{ success: true, deleted: this.changes }\<close>.\<close>
  "delete_ride to_key d ident =
     (let hit = (\<lambda>r. to_key ident = Some (r_id r))
      in (Reply (True, length (filter hit (rides d))),
          d\<lparr>rides := filter (\<lambda>r. \<not> hit r) (rides d)\<rparr>))"

record stats =
  totalSpent :: jsnum
  totalRides :: nat
  averageRide :: jsnum
  monthSpent :: jsnum
  monthRides :: nat

definition row_value :: "ride_row \<Rightarrow> jsnum" where
  \<comment> \<open>\<open>r.value\<close> as an addend: \<open>null\<close> adds nothing\<close>
  "row_value r = (case r_value r of Some v \<Rightarrow> v | None \<Rightarrow> Num 0)"

definition js_div :: "jsnum \<Rightarrow> nat \<Rightarrow> jsnum" where
  \<comment> \<open>\<open>total / count\<close>: a division by zero raises nothing in JavaScript, it gives \<open>NaN\<close>
      or an infinity\<close>
  "js_div a n =
     (case a of
        Num q \<Rightarrow> if n = 0 then (if q = 0 then NaN else if 0 < q then PInf else NInf)
                 else to_double (q / of_int (int n))
      | x \<Rightarrow> x)"

definition get_stats :: "(ride_row \<Rightarrow> bool) \<Rightarrow> db \<Rightarrow> string \<Rightarrow> stats reply" where
  \<comment> \<open>\<open>GET /api/stats/:userEmail\<close>, lines 275-312. The test of lines 294-298 (is the
      ride of the current month?) depends on the clock and on how \<open>new Date\<close> reads the
      stored value; it is the parameter \<open>in_month\<close>.\<close>
  "get_stats in_month d userEmail =
     (case get_user d (Some userEmail) of
        None \<Rightarrow> Failure 404 msg_user_not_found
      | Some u \<Rightarrow>
          (let rs = filter (\<lambda>r. r_user_id r = u_id u) (rides d);
               total = foldl (\<lambda>sum r. js_add sum (row_value r)) (Num 0) rs;
               count = length rs;
               avg = (if count > 0 then js_div total count else Num 0);
               monthRs = filter in_month rs;
               monthTotal = foldl (\<lambda>sum r. js_add sum (row_value r)) (Num 0) monthRs
           in Reply \<lparr>totalSpent = total, totalRides = count, averageRide = avg,
                      monthSpent = monthTotal, monthRides = length monthRs\<rparr>))"

section \<open>Definitions for the statements and the proofs\<close>





definition full_year :: "int \<Rightarrow> int" where
  \<comment> \<open>the year the \<open>Date\<close> constructor takes for a year argument\<close>
  "full_year y = (if 0 \<le> y \<and> y \<le> 99 then 1900 + y else y)"

definition digit_group :: "nat \<Rightarrow> nat \<Rightarrow> string \<Rightarrow> bool" where
  \<comment> \<open>what a group \<open>(\d{mn,mx})\<close> can capture\<close>
  "digit_group mn mx s = (list_all is_digit s \<and> mn \<le> length s \<and> length s \<le> mx)"

definition names_platform :: "mail \<Rightarrow> string \<Rightarrow> bool" where
  \<comment> \<open>the sender or the subject, in lower case, contains the name\<close>
  "names_platform m p =
     (str_includes (toLowerCase (str_or_empty (mail_from m))) p
      \<or> str_includes (toLowerCase (str_or_empty (mail_subject m))) p)"

definition no_platform :: "mail \<Rightarrow> bool" where
  \<comment> \<open>neither the sender nor the subject names a platform\<close>
  "no_platform m = (\<not> names_platform m ''uber'' \<and> \<not> names_platform m ''99'')"

definition has_platform_and_value :: "ride_row \<Rightarrow> bool" where
  "has_platform_and_value r = (r_platform r \<noteq> None \<and> r_value r \<noteq> None)"

definition rides_ok :: "db \<Rightarrow> bool" where
  \<comment> \<open>every stored ride has a platform and a value\<close>
  "rides_ok d = list_all has_platform_and_value (rides d)"

section \<open>Example inputs\<close>

definition user1 :: user where
  "user1 = \<lparr>u_id = 1, u_email = ''ana@mail.com'', u_unique_email = ''corridas-00ff@ridetrack.app''\<rparr>"

definition mail_shop :: mail where
  \<comment> \<open>an email of no platform, with an amount in its text\<close>
  "mail_shop = \<lparr>mail_from = Some ''news@shop.com'', mail_subject = Some ''Oferta'',
                 mail_text = Some ''R$ 45,90'', mail_html = None\<rparr>"

definition mail_uber_thanks :: mail where
  \<comment> \<open>an email of the first platform without any amount\<close>
  "mail_uber_thanks = \<lparr>mail_from = Some ''noreply@uber.com'', mail_subject = Some ''Recibo'',
                        mail_text = Some ''Obrigado'', mail_html = None\<rparr>"

definition mail_uber_trip :: mail where
  "mail_uber_trip = \<lparr>mail_from = Some ''noreply@uber.com'', mail_subject = Some ''Sua viagem'',
                      mail_text = Some ''Total R$ 45,90'', mail_html = None\<rparr>"

definition mailparser_demo :: "string \<Rightarrow> mail" where
  \<comment> \<open>a parser that knows three raw emails by name\<close>
  "mailparser_demo rawEmail =
     (if rawEmail = ''trip'' then mail_uber_trip
      else if rawEmail = ''thanks'' then mail_uber_thanks else mail_shop)"

definition ride_trip :: ride where
  \<comment> \<open>what the first parser makes of \<open>Total R$ 45,90\<close>; the value is the double nearest
      to 45.9, which is \<open>6459850715509555 / 2^47\<close>\<close>
  "ride_trip = \<lparr>platform = ''uber'', val = Some (Num (6459850715509555 / 140737488355328)),
                 origin = None, destination = None, datetime = None, raw_email = None\<rparr>"

definition user2 :: user where
  "user2 = \<lparr>u_id = 2, u_email = ''rui@mail.com'', u_unique_email = ''corridas-a1b2@ridetrack.app''\<rparr>"

definition ride3 :: ride_row where
  "ride3 = \<lparr>r_id = 3, r_user_id = 2, r_platform = Some ''99'', r_value = Some (Num (47 / 2)),
             r_origin = None, r_destination = None, r_datetime = Some (TimeMs 0),
             r_raw_email = None\<rparr>"

definition db2 :: db where
  \<comment> \<open>two users; the only ride belongs to the second one\<close>
  "db2 = \<lparr>users = [user1, user2], rides = [ride3], rides_seq = 3\<rparr>"

definition to_key_decimal :: "string \<Rightarrow> int option" where
  \<comment> \<open>a string of decimal digits as the integer it denotes. This is how SQLite compares
      such a string with an integer key; it reads other spellings of a number (\<open>3.0\<close>,
      a leading space) as integers too, and they are not covered here.\<close>
  "to_key_decimal ident =
     (if ident \<noteq> [] \<and> list_all is_digit ident then Some (digits_val ident) else None)"

definition never_in_month :: "ride_row \<Rightarrow> bool" where
  "never_in_month r = False"

definition body_refund :: ride_body where
  \<comment> \<open>a manual entry with a negative amount\<close>
  "body_refund = \<lparr>b_userEmail = Some ''ana@mail.com'', b_platform = Some ''uber'',
                   b_value = Some (Num (- 5)), b_origin = None, b_destination = None,
                   b_datetime = None\<rparr>"

definition ride4 :: ride_row where
  \<comment> \<open>the row of the email \<open>trip\<close>, received at time 1000 by the first user\<close>
  "ride4 = \<lparr>r_id = 4, r_user_id = 1, r_platform = Some ''uber'',
             r_value = Some (Num (6459850715509555 / 140737488355328)),
             r_origin = None, r_destination = None, r_datetime = Some (TimeMs 1000),
             r_raw_email = Some ''trip''\<rparr>"

definition ride_refund :: ride_row where
  \<comment> \<open>the row of the manual entry \<open>body_refund\<close>, made at time 1000\<close>
  "ride_refund = \<lparr>r_id = 4, r_user_id = 1, r_platform = Some ''uber'',
                   r_value = Some (Num (- 5)),
                   r_origin = None, r_destination = None, r_datetime = Some (TimeMs 1000),
                   r_raw_email = None\<rparr>"

definition address1 :: string where
  \<comment> \<open>the ingestion address of the first user\<close>
  "address1 = ''corridas-00ff@ridetrack.app''"



definition tiny_digits :: string where
  \<comment> \<open>323 zeros and a one: as decimals they denote \<open>10^-324\<close>\<close>
  "tiny_digits = replicate 323 CHR ''0'' @ ''1''"


definition ride99_feb31 :: ride where
  \<comment> \<open>what the second parser makes of \<open>R$ 10 31/02/2024\<close>; the time value is the one of
      2 March 2024\<close>
  "ride99_feb31 = \<lparr>platform = ''99'', val = Some (Num 10), origin = None, destination = None,
                    datetime = Some (TimeValue 1709337600000), raw_email = None\<rparr>"

definition ride_uber_abc :: ride where
  \<comment> \<open>what the first parser makes of \<open>R$ 10,00 5 de abc de 2024\<close>\<close>
  "ride_uber_abc = \<lparr>platform = ''uber'', val = Some (Num 10), origin = None, destination = None,
                     datetime = Some InvalidDate, raw_email = None\<rparr>"

section \<open>Rounding to a double\<close>

lemma pow2_powi: "pow2 e = 2 powi e"
proof (cases "0 \<le> e")
  case True
  then show ?thesis by (simp add: pow2_def power_int_def)
next
  case False
  then show ?thesis by (simp add: pow2_def power_int_def power_one_over inverse_eq_divide)
qed

lemma pow2_pos: "0 < pow2 e"
  by (simp add: pow2_powi)

lemma pow2_mono: "a \<le> b \<Longrightarrow> pow2 a \<le> pow2 b"
  by (simp add: pow2_powi power_int_increasing)

lemma pow2_le_imp_le: "pow2 a \<le> pow2 b \<Longrightarrow> a \<le> b"
  using power_int_strict_increasing[of b a "2::rat"] by (fastforce simp: pow2_powi)

lemma pow2_Suc: "pow2 (e + 1) = 2 * pow2 e"
  by (simp add: pow2_powi power_int_add)

lemma pow2_diff: "pow2 (a - b) = pow2 a / pow2 b"
  by (simp add: pow2_powi power_int_diff)

lemma round_div_nonneg:
  assumes "0 \<le> n" and "0 < d"
  shows "0 \<le> round_div n d"
proof -
  have "0 \<le> n div d" using assms by (simp add: pos_imp_zdiv_nonneg_iff)
  then show ?thesis by (simp add: round_div_def Let_def)
qed

lemma round_div_1: "round_div n 1 = n"
  by (simp add: round_div_def)

lemma round_div_zero_iff:
  assumes "0 \<le> n" and "0 < d"
  shows "round_div n d = 0 \<longleftrightarrow> 2 * n \<le> d"
proof (cases "n < d")
  case True
  with assms have "n div d = 0" "n mod d = n" by simp_all
  then show ?thesis by (simp add: round_div_def Let_def)
next
  case False
  then have "d \<le> n" by simp
  with assms have "1 \<le> n div d"
    by (simp add: pos_imp_zdiv_pos_iff int_one_le_iff_zero_less)
  then have "round_div n d \<noteq> 0" by (auto simp: round_div_def Let_def)
  moreover have "\<not> 2 * n \<le> d" using False assms by linarith
  ultimately show ?thesis by simp
qed


lemma bitlen_lower:
  assumes "0 < n"
  shows "pow2 (bitlen n - 1) \<le> of_int n"
proof -
  from bitlen_bounds[OF assms] have b: "2 ^ nat (bitlen n - 1) \<le> n" by simp
  have "1 \<le> bitlen n" using assms by (auto simp: bitlen_alt_def)
  then have "pow2 (bitlen n - 1) = of_int (2 ^ nat (bitlen n - 1))"
    by (simp add: pow2_def)
  also have "\<dots> \<le> of_int n" using b by (simp only: of_int_le_iff)
  finally show ?thesis .
qed

lemma bitlen_upper:
  assumes "0 < d"
  shows "of_int d \<le> pow2 (bitlen d)"
proof -
  from bitlen_bounds[OF assms] have b: "d \<le> 2 ^ nat (bitlen d)" by simp
  have "(of_int d :: rat) \<le> of_int (2 ^ nat (bitlen d))" using b by (simp only: of_int_le_iff)
  also have "\<dots> = pow2 (bitlen d)" using bitlen_nonneg[of d] by (simp add: pow2_def)
  finally show ?thesis .
qed

lemma ilog2_le_bitlen: "ilog2 n d \<le> bitlen n - bitlen d"
  by (simp add: ilog2_def Let_def)

lemma pow2_ilog2_le:
  assumes "0 < n" and "0 < d"
  shows "pow2 (ilog2 n d) \<le> of_int n / of_int d"
proof -
  let ?k = "bitlen n - bitlen d"
  have low: "pow2 (?k - 1) \<le> of_int n / of_int d"
  proof -
    have "pow2 (?k - 1) = pow2 (bitlen n - 1) / pow2 (bitlen d)"
      using pow2_diff[of "bitlen n - 1" "bitlen d"] by (simp add: algebra_simps)
    also have "\<dots> \<le> of_int n / of_int d"
      using bitlen_lower[OF assms(1)] bitlen_upper[OF assms(2)] assms(2) pow2_pos[of "bitlen n - 1"]
      by (intro frac_le) auto
    finally show ?thesis .
  qed
  show ?thesis
  proof (cases "ilog2 n d = ?k")
    case False
    then have "ilog2 n d = ?k - 1" by (auto simp: ilog2_def Let_def split: if_splits)
    with low show ?thesis by simp
  next
    case True
    then have t: "if 0 \<le> ?k then d * 2 ^ nat ?k \<le> n else d \<le> n * 2 ^ nat (- ?k)"
      by (auto simp: ilog2_def Let_def split: if_splits)
    have "pow2 ?k \<le> of_int n / of_int d"
    proof (cases "0 \<le> ?k")
      case True
      with t have "d * 2 ^ nat ?k \<le> n" by simp
      then have "(of_int (d * 2 ^ nat ?k) :: rat) \<le> of_int n" by (simp only: of_int_le_iff)
      then have "of_int d * pow2 ?k \<le> (of_int n :: rat)" using True by (simp add: pow2_def)
      then show ?thesis using assms(2) by (simp add: field_simps)
    next
      case False
      with t have "d \<le> n * 2 ^ nat (- ?k)" by simp
      then have "(of_int d :: rat) \<le> of_int (n * 2 ^ nat (- ?k))" by (simp only: of_int_le_iff)
      then have "(of_int d :: rat) \<le> of_int n * 2 ^ nat (- ?k)" by simp
      then show ?thesis using assms(2) False by (simp add: pow2_def field_simps)
    qed
    with True show ?thesis by simp
  qed
qed

lemma mantissa_zero_iff:
  assumes "0 \<le> n" and "0 < d"
  shows "(if 0 \<le> e then round_div n (d * 2 ^ nat e) else round_div (n * 2 ^ nat (- e)) d) = 0
           \<longleftrightarrow> 2 * (of_int n / of_int d) \<le> pow2 e"
proof (cases "0 \<le> e")
  case True
  have "round_div n (d * 2 ^ nat e) = 0 \<longleftrightarrow> 2 * n \<le> d * 2 ^ nat e"
    using assms by (intro round_div_zero_iff) auto
  also have "\<dots> \<longleftrightarrow> (of_int (2 * n) :: rat) \<le> of_int (d * 2 ^ nat e)"
    by (simp only: of_int_le_iff)
  also have "\<dots> \<longleftrightarrow> 2 * (of_int n / of_int d) \<le> pow2 e"
    using assms(2) True by (simp add: pow2_def field_simps)
  finally show ?thesis using True by simp
next
  case False
  have "round_div (n * 2 ^ nat (- e)) d = 0 \<longleftrightarrow> 2 * (n * 2 ^ nat (- e)) \<le> d"
    using assms by (intro round_div_zero_iff) auto
  also have "\<dots> \<longleftrightarrow> (of_int (2 * (n * 2 ^ nat (- e))) :: rat) \<le> of_int d"
    by (simp only: of_int_le_iff)
  also have "\<dots> \<longleftrightarrow> 2 * (of_int n / of_int d) \<le> pow2 e"
    using assms(2) False by (simp add: pow2_def field_simps)
  finally show ?thesis using False by simp
qed

lemma nearest_nonneg:
  assumes "0 \<le> n" and "0 < d"
  shows "0 \<le> nearest n d"
proof -
  have "0 \<le> (if 0 \<le> e then round_div n (d * 2 ^ nat e) else round_div (n * 2 ^ nat (- e)) d)" for e
    using assms by (auto intro!: round_div_nonneg)
  then show ?thesis
    using pow2_pos by (simp add: nearest_def Let_def less_imp_le)
qed

lemma nearest_zero_iff:
  assumes "0 < n" and "0 < d"
  shows "nearest n d = 0 \<longleftrightarrow> of_int n / of_int d \<le> pow2 (- 1075)"
proof -
  let ?q = "of_int n / of_int d :: rat"
  let ?e = "max (- 1074) (ilog2 n d - 52)"
  have q: "0 < ?q" using assms by simp
  have h: "pow2 (- 1074) = 2 * pow2 (- 1075)"
    using pow2_Suc[of "- 1075"] by simp
  have "nearest n d = 0 \<longleftrightarrow> 2 * ?q \<le> pow2 ?e"
    using mantissa_zero_iff[of n d ?e] assms pow2_pos[of ?e]
    by (simp add: nearest_def Let_def)
  also have "\<dots> \<longleftrightarrow> ?q \<le> pow2 (- 1075)"
  proof
    assume a: "2 * ?q \<le> pow2 ?e"
    have "?e = - 1074"
    proof (rule ccontr)
      assume "?e \<noteq> - 1074"
      then have "?e = ilog2 n d - 52" by linarith
      then have "pow2 ?e \<le> pow2 (ilog2 n d)" by (intro pow2_mono) simp
      also have "\<dots> \<le> ?q" by (rule pow2_ilog2_le[OF assms])
      finally show False using a q by linarith
    qed
    with a h show "?q \<le> pow2 (- 1075)" by simp
  next
    assume a: "?q \<le> pow2 (- 1075)"
    from pow2_ilog2_le[OF assms] a have "pow2 (ilog2 n d) \<le> pow2 (- 1075)" by linarith
    then have "ilog2 n d \<le> - 1075" by (rule pow2_le_imp_le)
    then have "?e = - 1074" by linarith
    with a h show "2 * ?q \<le> pow2 ?e" by simp
  qed
  finally show ?thesis .
qed

lemma nearest_int:
  assumes "0 < n" and "n < 2 ^ 53"
  shows "nearest n 1 = of_int n"
proof -
  define e where "e = max (- 1074) (ilog2 n 1 - 52)"
  have "bitlen n \<le> 53" using assms(2) by (simp add: bitlen_le_iff_power)
  moreover have "bitlen 1 = 1" by (simp add: bitlen_alt_def)
  ultimately have "ilog2 n 1 \<le> 52" using ilog2_le_bitlen[of n 1] by linarith
  then have e: "e \<le> 0" unfolding e_def by linarith
  have n: "nearest n 1
             = of_int (if 0 \<le> e then round_div n (1 * 2 ^ nat e) else round_div (n * 2 ^ nat (- e)) 1)
                 * pow2 e"
    unfolding nearest_def e_def Let_def ..
  show ?thesis
  proof (cases "e = 0")
    case True
    then show ?thesis unfolding n by (simp add: round_div_1 pow2_def)
  next
    case False
    with e have "e < 0" by linarith
    then show ?thesis unfolding n by (simp add: round_div_1 pow2_def)
  qed
qed

lemma quotient_of_abs:
  assumes "q \<noteq> 0" and "quotient_of \<bar>q\<bar> = (n, d)"
  shows "0 < n" and "0 < d" and "\<bar>q\<bar> = of_int n / of_int d"
proof -
  show d: "0 < d" using assms(2) by (rule quotient_of_denom_pos)
  show e: "\<bar>q\<bar> = of_int n / of_int d" using assms(2) by (rule quotient_of_div)
  have "0 < \<bar>q\<bar>" using assms(1) by simp
  with e d show "0 < n" by (simp add: zero_less_divide_iff)
qed

lemma overflow_threshold_pos: "0 < overflow_threshold"
  by (simp add: overflow_threshold_def)

lemma to_double_unfold:
  assumes "q \<noteq> 0" and "quotient_of \<bar>q\<bar> = (n, d)"
  shows "to_double q =
           (if overflow_threshold \<le> nearest n d then (if 0 < q then PInf else NInf)
            else Num (if 0 < q then nearest n d else - nearest n d))"
  using assms by (simp add: to_double_def Let_def)

lemma to_double_zero_iff: "to_double q = Num 0 \<longleftrightarrow> \<bar>q\<bar> \<le> pow2 (- 1075)"
proof (cases "q = 0")
  case True
  then show ?thesis using pow2_pos[of "- 1075"] by (simp add: to_double_def less_imp_le)
next
  case False
  obtain n d where nd: "quotient_of \<bar>q\<bar> = (n, d)" by (cases "quotient_of \<bar>q\<bar>")
  note p = quotient_of_abs[OF False nd]
  from nearest_nonneg[of n d] p have nn: "0 \<le> nearest n d" by simp
  have "to_double q = Num 0 \<longleftrightarrow> nearest n d = 0"
    unfolding to_double_unfold[OF False nd] using nn overflow_threshold_pos by auto
  also have "\<dots> \<longleftrightarrow> \<bar>q\<bar> \<le> pow2 (- 1075)"
    using nearest_zero_iff[OF p(1,2)] p(3) by simp
  finally show ?thesis .
qed

lemma to_double_nonneg:
  assumes "0 \<le> q"
  shows "to_double q = PInf \<or> (\<exists>r. to_double q = Num r \<and> 0 \<le> r)"
proof (cases "q = 0")
  case True
  then show ?thesis by (simp add: to_double_def)
next
  case False
  obtain n d where nd: "quotient_of \<bar>q\<bar> = (n, d)" by (cases "quotient_of \<bar>q\<bar>")
  note p = quotient_of_abs[OF False nd]
  from nearest_nonneg[of n d] p have nn: "0 \<le> nearest n d" by simp
  from False assms have "0 < q" by simp
  then show ?thesis unfolding to_double_unfold[OF False nd] using nn by auto
qed

lemma to_double_int:
  assumes "\<bar>n\<bar> < 2 ^ 53"
  shows "to_double (of_int n) = Num (of_int n)"
proof (cases "n = 0")
  case True
  then show ?thesis by (simp add: to_double_def)
next
  case False
  have a: "\<bar>of_int n :: rat\<bar> = of_int \<bar>n\<bar>" by simp
  have q: "quotient_of \<bar>of_int n :: rat\<bar> = (\<bar>n\<bar>, 1)"
    unfolding a by (rule quotient_of_rat_of_int)
  from False have "0 < \<bar>n\<bar>" by simp
  from nearest_int[OF this assms] have v: "nearest \<bar>n\<bar> 1 = of_int \<bar>n\<bar>" .
  have "(of_int \<bar>n\<bar> :: rat) < of_int (2 ^ 53)" using assms by (simp only: of_int_less_iff)
  also have "\<dots> \<le> overflow_threshold" by (simp add: overflow_threshold_def)
  finally have small: "\<not> overflow_threshold \<le> nearest \<bar>n\<bar> 1" unfolding v by simp
  from False have nz: "(of_int n :: rat) \<noteq> 0" by simp
  have "to_double (of_int n) = Num (if 0 < (of_int n :: rat) then nearest \<bar>n\<bar> 1 else - nearest \<bar>n\<bar> 1)"
    unfolding to_double_unfold[OF nz q] using small by simp
  also have "\<dots> = Num (of_int n)"
    unfolding v by (cases "0 < n") simp_all
  finally show ?thesis .
qed

section \<open>Properties of the store and of the routes\<close>

lemma insert_ride_Inr:
  assumes "insert_ride d uid p v orig dest dt raw = Inr (d', i)"
  shows "p \<noteq> None \<and> v \<noteq> None \<and> dt \<noteq> None \<and> i = rides_seq d + 1 \<and> users d' = users d
         \<and> rides d' = rides d @ [\<lparr>r_id = i, r_user_id = uid, r_platform = p, r_value = v,
               r_origin = orig, r_destination = dest, r_datetime = dt, r_raw_email = raw\<rparr>]"
  using assms by (auto simp: insert_ride_def Let_def split: if_splits)

lemma insert_ride_ok:
  assumes "rides_ok d" and "insert_ride d uid p v orig dest dt raw = Inr (d', i)"
  shows "rides_ok d'"
  using assms(1) insert_ride_Inr[OF assms(2)]
  by (simp add: rides_ok_def has_platform_and_value_def)

text \<open>
  C9: for a user with no stored ride the statistics are total 0, count 0 and average 0
  (no fault of a division by zero); and whenever the count of a reply is 0, its average
  and its total are 0.
\<close>

theorem stats_zero_rides:
  assumes "get_user d (Some userEmail) = Some u"
  shows "(filter (\<lambda>r. r_user_id r = u_id u) (rides d) = [] \<longrightarrow>
            get_stats in_month d userEmail
              = Reply \<lparr>totalSpent = Num 0, totalRides = 0, averageRide = Num 0,
                        monthSpent = Num 0, monthRides = 0\<rparr>)
         \<and> (\<forall>st. get_stats in_month d userEmail = Reply st \<and> totalRides st = 0
                \<longrightarrow> averageRide st = Num 0 \<and> totalSpent st = Num 0)"
  using assms by (auto simp: get_stats_def Let_def)

theorem stats_zero_rides_witness:
  "get_user db2 (Some ''ana@mail.com'') = Some user1
   \<and> filter (\<lambda>r. r_user_id r = u_id user1) (rides db2) = []
   \<and> get_stats never_in_month db2 ''ana@mail.com''
       = Reply \<lparr>totalSpent = Num 0, totalRides = 0, averageRide = Num 0,
                 monthSpent = Num 0, monthRides = 0\<rparr>"
proof -
  have h1: "get_user db2 (Some ''ana@mail.com'') = Some user1"
    by (simp add: get_user_def db2_def user1_def)
  have h2: "filter (\<lambda>r. r_user_id r = u_id user1) (rides db2) = []"
    by (simp add: db2_def ride3_def user1_def)
  from stats_zero_rides[OF h1, of never_in_month] h2
  have "get_stats never_in_month db2 ''ana@mail.com''
          = Reply \<lparr>totalSpent = Num 0, totalRides = 0, averageRide = Num 0,
                    monthSpent = Num 0, monthRides = 0\<rparr>"
    by blast
  with h1 h2 show ?thesis by blast
qed

text \<open>
  C10: deleting a ride by an identifier that no stored ride has answers with success and
  a deleted count of 0, and leaves the store as it was.
\<close>

theorem delete_ride_absent:
  assumes "\<forall>r \<in> set (rides d). to_key ident \<noteq> Some (r_id r)"
  shows "delete_ride to_key d ident = (Reply (True, 0), d)"
proof -
  have "filter (\<lambda>r. to_key ident = Some (r_id r)) (rides d) = []"
    using assms by (simp add: filter_empty_conv)
  moreover have "filter (\<lambda>r. \<not> to_key ident = Some (r_id r)) (rides d) = rides d"
    using assms by (simp add: filter_id_conv)
  ultimately show ?thesis
    by (simp add: delete_ride_def Let_def)
qed

theorem delete_ride_absent_witness:
  "rides db2 = [ride3] \<and> to_key_decimal ''7'' = Some 7 \<and> r_id ride3 = 3
   \<and> delete_ride to_key_decimal db2 ''7'' = (Reply (True, 0), db2)"
proof -
  have k: "to_key_decimal ''7'' = Some 7"
    by code_simp
  have r: "rides db2 = [ride3]" "r_id ride3 = 3"
    by (simp_all add: db2_def ride3_def)
  have h: "\<forall>r \<in> set (rides db2). to_key_decimal ''7'' \<noteq> Some (r_id r)"
    by (simp add: k r)
  from k r delete_ride_absent[of db2 to_key_decimal "''7''"] h show ?thesis by blast
qed

text \<open>
  C7: when a ride was extracted and the recipient address resolves to no user, the
  pipeline rejects with the user-not-found message and leaves the store as it was; that
  message differs from the one of a failed extraction; and the user is looked up only
  after the extraction has succeeded: a failed extraction is rejected with its own
  message whatever the store and the recipient are.
\<close>

theorem processEmail_user_not_found:
  assumes "extract_ride (mailparser rawEmail) = Some ride"
      and "get_user_by_unique_email d userEmail = None"
  shows "processEmail mailparser now d rawEmail userEmail = (Inl (Error msg_user_not_found), d)
         \<and> msg_user_not_found \<noteq> msg_not_extracted
         \<and> (\<forall>raw' d' to'. extract_ride (mailparser raw') = None \<longrightarrow>
                processEmail mailparser now d' raw' to' = (Inl (Error msg_not_extracted), d'))"
proof -
  have "processEmail mailparser now d rawEmail userEmail = (Inl (Error msg_user_not_found), d)"
    using assms by (simp add: processEmail_def processEmail_with_def extract_ride_def Let_def)
  moreover have "msg_user_not_found \<noteq> msg_not_extracted"
    by (simp add: msg_user_not_found_def msg_not_extracted_def)
  moreover have "\<forall>raw' d' to'. extract_ride (mailparser raw') = None \<longrightarrow>
      processEmail mailparser now d' raw' to' = (Inl (Error msg_not_extracted), d')"
    by (simp add: processEmail_def processEmail_with_def extract_ride_def)
  ultimately show ?thesis by blast
qed

theorem processEmail_user_not_found_witness:
  "extract_ride (mailparser_demo ''trip'') = Some ride_trip
   \<and> get_user_by_unique_email db2 (Some ''nobody@ridetrack.app'') = None
   \<and> processEmail mailparser_demo 0 db2 ''trip'' (Some ''nobody@ridetrack.app'')
        = (Inl (Error msg_user_not_found), db2)
   \<and> extract_ride (mailparser_demo ''thanks'') = None
   \<and> get_user_by_unique_email db2 (Some address1) = Some user1
   \<and> processEmail mailparser_demo 0 db2 ''thanks'' (Some address1)
        = (Inl (Error msg_not_extracted), db2)"
proof -
  have h1: "extract_ride (mailparser_demo ''trip'') = Some ride_trip"
    by code_simp
  have h2: "get_user_by_unique_email db2 (Some ''nobody@ridetrack.app'') = None"
    by code_simp
  have h3: "extract_ride (mailparser_demo ''thanks'') = None"
    by code_simp
  have h4: "get_user_by_unique_email db2 (Some address1) = Some user1"
    by code_simp
  note t = processEmail_user_not_found[where mailparser = mailparser_demo
      and rawEmail = "''trip''" and now = 0, OF h1 h2]
  from t have "processEmail mailparser_demo 0 db2 ''trip'' (Some ''nobody@ridetrack.app'')
        = (Inl (Error msg_user_not_found), db2)"
    by blast
  moreover from t h3
  have "processEmail mailparser_demo 0 db2 ''thanks'' (Some address1)
        = (Inl (Error msg_not_extracted), db2)"
    by blast
  ultimately show ?thesis using h1 h2 h3 h4 by blast
qed

text \<open>
  C1, as the code has it: an email whose sender and subject name no platform is rejected
  with the message of a failed extraction, the store is left as it was, and no parser
  runs: the result is the same whatever the two parsers are. The message is the one a
  detected platform without a fare gets.
\<close>

theorem processEmail_no_platform:
  assumes "no_platform (mailparser rawEmail)"
  shows "processEmail_with parserA parserB mailparser now d rawEmail userEmail
           = (Inl (Error msg_not_extracted), d)
         \<and> processEmail mailparser now d rawEmail userEmail = (Inl (Error msg_not_extracted), d)"
  using assms
  by (simp add: processEmail_def processEmail_with_def extract_with_def no_platform_def
        names_platform_def Let_def)

theorem processEmail_no_platform_witness:
  "no_platform (mailparser_demo ''shop'')
   \<and> processEmail mailparser_demo 0 db2 ''shop'' (Some address1)
        = (Inl (Error msg_not_extracted), db2)"
proof -
  have h: "no_platform (mailparser_demo ''shop'')"
    by code_simp
  from h processEmail_no_platform[where mailparser = mailparser_demo and rawEmail = "''shop''"
      and parserA = parseUberReceipt and parserB = parse99Receipt and now = 0 and d = db2
      and userEmail = "Some address1"]
  show ?thesis by blast
qed

text \<open>
  The claim C1 asks for a rejection that the caller can tell from the one of a detected
  platform without a fare. It cannot: an email of no platform and an email of the first
  platform without an amount get the same reply from the webhook.
\<close>

theorem no_platform_same_rejection:
  "no_platform (mailparser_demo ''shop'')
   \<and> \<not> no_platform (mailparser_demo ''thanks'')
   \<and> parseUberReceipt ''Obrigado'' [] = None
   \<and> webhook_email mailparser_demo 0 db2 (Some address1) None ''shop''
        = (Failure 400 msg_not_extracted, db2)
   \<and> webhook_email mailparser_demo 0 db2 (Some address1) None ''thanks''
        = (Failure 400 msg_not_extracted, db2)"
  by code_simp

section \<open>What the parsers return\<close>

lemma foldl_digits_nonneg:
  "0 \<le> a \<Longrightarrow> 0 \<le> foldl (\<lambda>n c. 10 * n + int (digit_val c)) a s"
  by (induction s arbitrary: a) simp_all

lemma digits_val_nonneg: "0 \<le> digits_val s"
  by (simp add: digits_val_def foldl_digits_nonneg)

lemma decimal_nonneg: "0 \<le> decimal d1 d2"
  by (simp add: decimal_def digits_val_nonneg)

lemma parseFloat_cases:
  "parseFloat s = NaN \<or> parseFloat s = PInf \<or> (\<exists>q. parseFloat s = Num q \<and> 0 \<le> q)"
  using to_double_nonneg[OF decimal_nonneg] by (auto simp: parseFloat_def Let_def)

lemma set_value_platform: "platform (set_value m r) = platform r"
  by (simp add: set_value_def split: option.splits list.splits)

lemma set_value_cases:
  "val (set_value m (new_ride p)) = None \<or> val (set_value m (new_ride p)) = Some NaN
   \<or> val (set_value m (new_ride p)) = Some PInf
   \<or> (\<exists>q. val (set_value m (new_ride p)) = Some (Num q) \<and> 0 \<le> q)"
proof (cases m)
  case None
  then show ?thesis by (simp add: set_value_def new_ride_def)
next
  case (Some gs)
  show ?thesis
  proof (cases gs)
    case Nil
    with Some show ?thesis by (simp add: set_value_def new_ride_def)
  next
    case (Cons g1 extra)
    with Some parseFloat_cases[of "replace_first CHR '','' CHR ''.'' g1"]
    show ?thesis by (auto simp: set_value_def new_ride_def)
  qed
qed

lemma truthy_num_pos:
  assumes "truthy_num v"
      and "v = None \<or> v = Some NaN \<or> v = Some PInf \<or> (\<exists>q. v = Some (Num q) \<and> 0 \<le> q)"
  shows "\<exists>x. v = Some x \<and> js_positive x"
  using assms by (auto simp: less_le)

lemma parseUberReceipt_Some:
  assumes "parseUberReceipt text html = Some r"
  shows "platform r = ''uber'' \<and> val r = val (set_value (match_value text html) (new_ride ''uber''))
         \<and> truthy_num (val r)"
  using assms
  by (auto simp: parseUberReceipt_def Let_def set_value_platform new_ride_def
           split: option.splits list.splits if_splits)

lemma parse99Receipt_Some:
  assumes "parse99Receipt text html = Some r"
  shows "platform r = ''99'' \<and> val r = val (set_value (match_value text html) (new_ride ''99''))
         \<and> truthy_num (val r)"
  using assms
  by (auto simp: parse99Receipt_def Let_def set_value_platform new_ride_def
           split: option.splits list.splits if_splits)

lemma extract_ride_Some:
  assumes "extract_ride m = Some r"
  shows "(platform r = ''uber'' \<or> platform r = ''99'') \<and> (\<exists>x. val r = Some x \<and> js_positive x)"
proof -
  from assms consider t h where "parseUberReceipt t h = Some r"
    | t h where "parse99Receipt t h = Some r"
    by (auto simp: extract_ride_def extract_with_def Let_def split: if_splits)
  then show ?thesis
  proof cases
    case 1
    from parseUberReceipt_Some[OF 1] show ?thesis
      using truthy_num_pos[of "val r"] set_value_cases[of "match_value t h" "''uber''"]
      by auto
  next
    case 2
    from parse99Receipt_Some[OF 2] show ?thesis
      using truthy_num_pos[of "val r"] set_value_cases[of "match_value t h" "''99''"]
      by auto
  qed
qed

section \<open>The pipeline and the store\<close>

lemma processEmail_Inr:
  assumes "processEmail mailparser now d rawEmail userEmail = (Inr (ride, i), d')"
  shows "\<exists>r u. extract_ride (mailparser rawEmail) = Some r \<and> ride = r\<lparr>raw_email := Some rawEmail\<rparr>
           \<and> get_user_by_unique_email d userEmail = Some u
           \<and> insert_ride d (u_id u) (Some (platform ride)) (bind_num (val ride)) (origin ride)
                (destination ride)
                (bind_date (case datetime ride of Some dt \<Rightarrow> dt | None \<Rightarrow> TimeValue now))
                (Some rawEmail) = Inr (d', i)"
  using assms
  by (auto simp: processEmail_def processEmail_with_def extract_ride_def Let_def
           split: option.splits sum.splits)

lemma processEmail_Inl:
  assumes "processEmail mailparser now d rawEmail userEmail = (Inl e, d')"
  shows "d' = d"
  using assms
  by (auto simp: processEmail_def processEmail_with_def Let_def
           split: option.splits sum.splits)

text \<open>
  C2, as the code has it: \<open>processEmail\<close> itself inserts the ride. When it resolves, the
  store has one more row, the one of the returned ride under the returned id, for the
  user the recipient address resolves to; the users are untouched. When it rejects, the
  store is as it was.
\<close>

theorem processEmail_inserts:
  "(processEmail mailparser now d rawEmail userEmail = (Inr (ride, i), d') \<longrightarrow>
      (\<exists>u. get_user_by_unique_email d userEmail = Some u \<and> users d' = users d
           \<and> rides d' = rides d @
                [\<lparr>r_id = i, r_user_id = u_id u, r_platform = Some (platform ride),
                  r_value = bind_num (val ride), r_origin = origin ride,
                  r_destination = destination ride,
                  r_datetime = bind_date (case datetime ride of Some dt \<Rightarrow> dt
                                          | None \<Rightarrow> TimeValue now),
                  r_raw_email = Some rawEmail\<rparr>]))
   \<and> (processEmail mailparser now d rawEmail userEmail = (Inl e, d') \<longrightarrow> d' = d)"
proof (intro conjI impI)
  assume a: "processEmail mailparser now d rawEmail userEmail = (Inr (ride, i), d')"
  from processEmail_Inr[OF a] obtain r u where
    u: "get_user_by_unique_email d userEmail = Some u" and
    ins: "insert_ride d (u_id u) (Some (platform ride)) (bind_num (val ride)) (origin ride)
                (destination ride)
                (bind_date (case datetime ride of Some dt \<Rightarrow> dt | None \<Rightarrow> TimeValue now))
                (Some rawEmail) = Inr (d', i)"
    by blast
  from insert_ride_Inr[OF ins] u
  show "\<exists>u. get_user_by_unique_email d userEmail = Some u \<and> users d' = users d
           \<and> rides d' = rides d @
                [\<lparr>r_id = i, r_user_id = u_id u, r_platform = Some (platform ride),
                  r_value = bind_num (val ride), r_origin = origin ride,
                  r_destination = destination ride,
                  r_datetime = bind_date (case datetime ride of Some dt \<Rightarrow> dt
                                          | None \<Rightarrow> TimeValue now),
                  r_raw_email = Some rawEmail\<rparr>]"
    by blast
next
  assume "processEmail mailparser now d rawEmail userEmail = (Inl e, d')"
  then show "d' = d" by (rule processEmail_Inl)
qed

theorem processEmail_inserts_witness:
  "processEmail mailparser_demo 1000 db2 ''trip'' (Some address1)
     = (Inr (ride_trip\<lparr>raw_email := Some ''trip''\<rparr>, 4), db2\<lparr>rides := [ride3, ride4], rides_seq := 4\<rparr>)
   \<and> (\<exists>u. get_user_by_unique_email db2 (Some address1) = Some u
          \<and> users (db2\<lparr>rides := [ride3, ride4], rides_seq := 4\<rparr>) = users db2
          \<and> rides (db2\<lparr>rides := [ride3, ride4], rides_seq := 4\<rparr>) = rides db2 @
               [\<lparr>r_id = 4, r_user_id = u_id u,
                 r_platform = Some (platform (ride_trip\<lparr>raw_email := Some ''trip''\<rparr>)),
                 r_value = bind_num (val (ride_trip\<lparr>raw_email := Some ''trip''\<rparr>)),
                 r_origin = origin (ride_trip\<lparr>raw_email := Some ''trip''\<rparr>),
                 r_destination = destination (ride_trip\<lparr>raw_email := Some ''trip''\<rparr>),
                 r_datetime = bind_date
                   (case datetime (ride_trip\<lparr>raw_email := Some ''trip''\<rparr>) of Some dt \<Rightarrow> dt
                    | None \<Rightarrow> TimeValue 1000),
                 r_raw_email = Some ''trip''\<rparr>])
   \<and> processEmail mailparser_demo 1000 db2 ''shop'' (Some address1)
       = (Inl (Error msg_not_extracted), db2)"
proof -
  have a: "processEmail mailparser_demo 1000 db2 ''trip'' (Some address1)
     = (Inr (ride_trip\<lparr>raw_email := Some ''trip''\<rparr>, 4), db2\<lparr>rides := [ride3, ride4], rides_seq := 4\<rparr>)"
    by code_simp
  have b: "processEmail mailparser_demo 1000 db2 ''shop'' (Some address1)
       = (Inl (Error msg_not_extracted), db2)"
    by code_simp
  from a b
    processEmail_inserts[where mailparser = mailparser_demo and now = 1000 and d = db2
      and rawEmail = "''trip''" and userEmail = "Some address1"
      and ride = "ride_trip\<lparr>raw_email := Some ''trip''\<rparr>" and i = 4
      and d' = "db2\<lparr>rides := [ride3, ride4], rides_seq := 4\<rparr>"]
  show ?thesis by blast
qed

text \<open>
  The claim C2 says that \<open>processEmail\<close> persists nothing. It does: before the call the
  store holds one ride, after it two.
\<close>

theorem processEmail_persists:
  "rides db2 = [ride3]
   \<and> rides (snd (processEmail mailparser_demo 1000 db2 ''trip'' (Some address1))) = [ride3, ride4]"
  by code_simp

text \<open>
  C8, as the code has it: every stored ride has a platform and a value (the table refuses
  \<open>NULL\<close> in both columns), and the email pipeline, the manual entry and the deletion
  keep it so; a ride stored by the email pipeline moreover has the platform \<open>uber\<close> or
  \<open>99\<close> and a value above zero (a finite double or \<open>Infinity\<close>). The manual entry does
  not look at the sign of the value.
\<close>

theorem writes_keep_platform_and_value:
  assumes "rides_ok d"
  shows "rides_ok (snd (processEmail mailparser now d rawEmail userEmail))
         \<and> rides_ok (snd (post_ride now d body))
         \<and> rides_ok (snd (delete_ride to_key d ident))
         \<and> (\<forall>ride i d'. processEmail mailparser now d rawEmail userEmail = (Inr (ride, i), d') \<longrightarrow>
               (\<exists>row x. rides d' = rides d @ [row]
                   \<and> (r_platform row = Some ''uber'' \<or> r_platform row = Some ''99'')
                   \<and> r_value row = Some x \<and> js_positive x))"
proof (intro conjI allI impI)
  show "rides_ok (snd (processEmail mailparser now d rawEmail userEmail))"
  proof (cases "processEmail mailparser now d rawEmail userEmail")
    case (Pair res d')
    show ?thesis
    proof (cases res)
      case (Inl e)
      with Pair processEmail_Inl[of mailparser now d rawEmail userEmail e d'] assms
      show ?thesis by simp
    next
      case (Inr p)
      obtain ride i where p: "p = (ride, i)" by (cases p)
      have a: "processEmail mailparser now d rawEmail userEmail = (Inr (ride, i), d')"
        using Pair Inr p by simp
      from processEmail_Inr[OF a]
      obtain u :: user where "insert_ride d (u_id u) (Some (platform ride)) (bind_num (val ride)) (origin ride)
                (destination ride)
                (bind_date (case datetime ride of Some dt \<Rightarrow> dt | None \<Rightarrow> TimeValue now))
                (Some rawEmail) = Inr (d', i)"
        by blast
      from insert_ride_ok[OF assms this] Pair show ?thesis by simp
    qed
  qed
next
  show "rides_ok (snd (post_ride now d body))"
    using assms
    by (auto simp: post_ride_def split: option.splits sum.splits error.splits
             dest: insert_ride_ok[OF assms])
next
  show "rides_ok (snd (delete_ride to_key d ident))"
    using assms by (simp add: delete_ride_def rides_ok_def Let_def list_all_iff)
next
  fix ride i d'
  assume a: "processEmail mailparser now d rawEmail userEmail = (Inr (ride, i), d')"
  from processEmail_Inr[OF a] obtain r and u :: user where
    r: "extract_ride (mailparser rawEmail) = Some r" "ride = r\<lparr>raw_email := Some rawEmail\<rparr>" and
    ins: "insert_ride d (u_id u) (Some (platform ride)) (bind_num (val ride)) (origin ride)
                (destination ride)
                (bind_date (case datetime ride of Some dt \<Rightarrow> dt | None \<Rightarrow> TimeValue now))
                (Some rawEmail) = Inr (d', i)"
    by blast
  from extract_ride_Some[OF r(1)] r(2) obtain x where
    q: "platform ride = ''uber'' \<or> platform ride = ''99''" "val ride = Some x" "js_positive x"
    by auto
  from q(3) have "bind_num (Some x) = Some x" by (cases x) simp_all
  with insert_ride_Inr[OF ins] q
  show "\<exists>row x. rides d' = rides d @ [row]
                   \<and> (r_platform row = Some ''uber'' \<or> r_platform row = Some ''99'')
                   \<and> r_value row = Some x \<and> js_positive x"
    by auto
qed

theorem writes_keep_platform_and_value_witness:
  "rides_ok db2
   \<and> rides_ok (snd (processEmail mailparser_demo 1000 db2 ''trip'' (Some address1)))
   \<and> rides_ok (snd (post_ride 1000 db2 body_refund))
   \<and> rides_ok (snd (delete_ride to_key_decimal db2 ''3''))
   \<and> processEmail mailparser_demo 1000 db2 ''trip'' (Some address1)
     = (Inr (ride_trip\<lparr>raw_email := Some ''trip''\<rparr>, 4), db2\<lparr>rides := [ride3, ride4], rides_seq := 4\<rparr>)
   \<and> (\<exists>row x. rides (db2\<lparr>rides := [ride3, ride4], rides_seq := 4\<rparr>) = rides db2 @ [row]
          \<and> (r_platform row = Some ''uber'' \<or> r_platform row = Some ''99'')
          \<and> r_value row = Some x \<and> js_positive x)"
proof -
  have h: "rides_ok db2"
    by code_simp
  have a: "processEmail mailparser_demo 1000 db2 ''trip'' (Some address1)
     = (Inr (ride_trip\<lparr>raw_email := Some ''trip''\<rparr>, 4), db2\<lparr>rides := [ride3, ride4], rides_seq := 4\<rparr>)"
    by code_simp
  from h a
    writes_keep_platform_and_value[OF h, where mailparser = mailparser_demo and now = 1000
      and rawEmail = "''trip''" and userEmail = "Some address1" and body = body_refund
      and to_key = to_key_decimal and ident = "''3''"]
  show ?thesis by blast
qed

text \<open>
  The claim C8 says that every stored ride has a value that is not negative. The manual
  entry stores a negative value as it comes.
\<close>

theorem post_ride_negative_value:
  "b_value body_refund = Some (Num (- 5))
   \<and> post_ride 1000 db2 body_refund
       = (Reply (4, body_refund), db2\<lparr>rides := [ride3, ride_refund], rides_seq := 4\<rparr>)
   \<and> r_value ride_refund = Some (Num (- 5))
   \<and> \<not> js_positive (Num (- 5))"
  by code_simp

section \<open>The matcher on the value pattern\<close>

lemma set_rep_counts:
  "set (rep_counts g mn mx n) = {k. mn \<le> k \<and> k \<le> n \<and> (case mx of None \<Rightarrow> True | Some m \<Rightarrow> k \<le> m)}"
  by (auto simp: Let_def split: option.splits)


declare rep_counts.simps [simp del]

lemma set_rx_run_Rep:
  "set (rx_run (Rep g mn mx c) s) =
     {([], drop k s) | k. mn \<le> k \<and> k \<le> length (takeWhile (in_class c) s)
        \<and> (case mx of None \<Rightarrow> True | Some m \<Rightarrow> k \<le> m)}"
  by (auto simp: set_rep_counts)













declare rx_run.simps [simp del]


lemma in_class_Digit: "in_class Digit = is_digit"
  by (rule ext) simp

















lemma dot_facts: "\<not> is_digit CHR ''.''" "\<not> in_class DigitComma CHR ''.''" "in_class DigitComma CHR '',''"
  "\<not> is_digit CHR '',''"
  by (auto simp: is_digit_def)

lemma takeWhile_no_digit:
  assumes "extra = [] \<or> \<not> is_digit (hd extra)"
  shows "takeWhile is_digit extra = []"
  using assms by (cases extra) auto







lemma parseFloat_decimal:
  assumes "list_all is_digit d1" and "list_all is_digit d2" and "d1 \<noteq> [] \<or> d2 \<noteq> []"
      and "extra = [] \<or> \<not> is_digit (hd extra)"
  shows "parseFloat (d1 @ CHR ''.'' # d2 @ extra) = to_double (decimal d1 d2)"
proof -
  have 1: "takeWhile is_digit (d1 @ CHR ''.'' # d2 @ extra) = d1"
    using assms(1) dot_facts(1) by (simp add: takeWhile_append2 list_all_iff)
  have 2: "dropWhile is_digit (d1 @ CHR ''.'' # d2 @ extra) = CHR ''.'' # d2 @ extra"
    using assms(1) dot_facts(1) by (simp add: dropWhile_append2 list_all_iff)
  have 3: "takeWhile is_digit (d2 @ extra) = d2"
    using assms(2) takeWhile_no_digit[OF assms(4)] by (simp add: takeWhile_append2 list_all_iff)
  show ?thesis
    unfolding parseFloat_def 1 2 using 3 assms(3) by auto
qed


section \<open>Amounts\<close>

lemma parseUberReceipt_truthy:
  assumes "truthy_num (val (set_value (match_value t h) (new_ride ''uber'')))"
  shows "\<exists>r. parseUberReceipt t h = Some r \<and> platform r = ''uber''
             \<and> val r = val (set_value (match_value t h) (new_ride ''uber''))"
  using assms
  by (auto simp: parseUberReceipt_def Let_def set_value_platform new_ride_def
           split: option.splits list.splits)

lemma parse99Receipt_truthy:
  assumes "truthy_num (val (set_value (match_value t h) (new_ride ''99'')))"
  shows "\<exists>r. parse99Receipt t h = Some r \<and> platform r = ''99''
             \<and> val r = val (set_value (match_value t h) (new_ride ''99''))"
  using assms
  by (auto simp: parse99Receipt_def Let_def set_value_platform new_ride_def
           split: option.splits list.splits)



text \<open>
  What \<open>parseFloat\<close> makes of some decimals: the nearest double of 45.90 and of 0.1; above
  \<open>2^53\<close> the odd integers are not doubles, and a tie goes to the even significand; a
  decimal of 310 digits is beyond the doubles; \<open>10^-324\<close> is below half the least
  positive double.
\<close>

lemma parseFloat_rounds:
  "parseFloat ''45.90'' = Num (6459850715509555 / 140737488355328)
   \<and> parseFloat ''0.1'' = Num (3602879701896397 / 36028797018963968)
   \<and> parseFloat ''9007199254740993'' = Num 9007199254740992
   \<and> parseFloat ''9007199254740995'' = Num 9007199254740996
   \<and> parseFloat ''12'' = Num 12
   \<and> parseFloat '','' = NaN"
  by code_simp

lemma parseFloat_overflow: "parseFloat (CHR ''1'' # replicate 309 CHR ''0'') = PInf"
  by code_simp

lemma parseFloat_underflow: "parseFloat (''0.'' @ tiny_digits) = Num 0"
proof -
  have d: "list_all is_digit ''0''" "list_all is_digit tiny_digits" by code_simp+
  have le: "\<bar>decimal ''0'' tiny_digits\<bar> \<le> pow2 (- 1075)" by code_simp
  from parseFloat_decimal[OF d, of "[]"]
  have "parseFloat (''0.'' @ tiny_digits) = to_double (decimal ''0'' tiny_digits)"
    by simp
  with le show ?thesis by (simp only: to_double_zero_iff)
qed




section \<open>Dates\<close>

lemma rx_match_in_run:
  "rx_match r s = Some caps \<Longrightarrow> \<exists>suf rest. (caps, rest) \<in> set (rx_run r suf)"
proof (induction s)
  case Nil
  then show ?case
    by (cases "rx_run r []") (auto split: prod.splits, metis list.set_intros(1))
next
  case (Cons c cs)
  show ?case
  proof (cases "rx_run r (c # cs)")
    case Nil
    with Cons show ?thesis by simp
  next
    case (Cons p ps)
    with Cons.prems have "(caps, snd p) \<in> set (rx_run r (c # cs))"
      by (cases p) auto
    then show ?thesis by blast
  qed
qed

lemma in_rx_run_Seq:
  assumes "(c, s') \<in> set (rx_run (Seq r1 r2) s)"
  shows "\<exists>c1 s1 c2. (c1, s1) \<in> set (rx_run r1 s) \<and> (c2, s') \<in> set (rx_run r2 s1) \<and> c = c1 @ c2"
  using assms by (auto simp: rx_run.simps)

lemma in_rx_run_Lit:
  assumes "(c, s') \<in> set (rx_run (Lit l) s)"
  shows "c = []"
  using assms by (auto simp: rx_run.simps split: if_splits)

lemma in_rx_run_Eps:
  assumes "(c, s') \<in> set (rx_run Eps s)"
  shows "c = []"
  using assms by (auto simp: rx_run.simps)

lemma take_takeWhile_all:
  assumes "k \<le> length (takeWhile P s)"
  shows "list_all P (take k s) \<and> length (take k s) = k"
proof -
  have "take k s = take k (takeWhile P s)"
    using assms by (metis append_eq_conv_conj takeWhile_dropWhile_id take_append min.absorb2 take_all_iff
        diff_is_0_eq take0 append_Nil2 length_take min.commute)
  then show ?thesis
    using assms by (auto simp: list_all_iff dest: in_set_takeD set_takeWhileD)
qed

lemma in_rx_run_Grp_Rep:
  assumes "(c, s') \<in> set (rx_run (Grp (Rep g mn (Some mx) Digit)) s)"
  shows "\<exists>d. c = [d] \<and> digit_group mn mx d"
proof -
  from assms obtain c0 where c0: "(c0, s') \<in> set (rx_run (Rep g mn (Some mx) Digit) s)"
    and c: "c = take (length s - length s') s # c0"
    by (auto simp: rx_run.simps)
  from c0 obtain k where k: "c0 = []" "s' = drop k s" "mn \<le> k" "k \<le> length (takeWhile is_digit s)" "k \<le> mx"
    unfolding set_rx_run_Rep in_class_Digit by auto
  have kl: "k \<le> length s"
    using k(4) length_takeWhile_le[of is_digit s] by linarith
  then have "length s - length s' = k" using k(2) by simp
  with c k(1) have "c = [take k s]" by simp
  moreover from take_takeWhile_all[OF k(4)] k(3,5) have "digit_group mn mx (take k s)"
    by (simp add: digit_group_def)
  ultimately show ?thesis by blast
qed

lemma date99_rx_alt:
  "date99_rx = Seq (Grp (Rep True 1 (Some 2) Digit)) (Seq (Lit ''/'')
                (Seq (Grp (Rep True 1 (Some 2) Digit)) (Seq (Lit ''/'')
                  (Seq (Grp (Rep True 4 (Some 4) Digit)) Eps))))"
  by (simp add: date99_rx_def)

lemma date99_caps:
  assumes "rx_match date99_rx s = Some caps"
  shows "\<exists>d m y. caps = [d, m, y] \<and> digit_group 1 2 d \<and> digit_group 1 2 m \<and> digit_group 4 4 y"
proof -
  from rx_match_in_run[OF assms] obtain suf rest where
    "(caps, rest) \<in> set (rx_run date99_rx suf)" by blast
  then obtain a1 s1 b1 where 1: "(a1, s1) \<in> set (rx_run (Grp (Rep True 1 (Some 2) Digit)) suf)"
    and r1: "(b1, rest) \<in> set (rx_run (Seq (Lit ''/'')
                (Seq (Grp (Rep True 1 (Some 2) Digit)) (Seq (Lit ''/'')
                  (Seq (Grp (Rep True 4 (Some 4) Digit)) Eps)))) s1)"
    and e1: "caps = a1 @ b1"
    unfolding date99_rx_alt by (blast dest: in_rx_run_Seq)
  from in_rx_run_Seq[OF r1] obtain a2 s2 b2 where 2: "(a2, s2) \<in> set (rx_run (Lit ''/'') s1)"
    and r2: "(b2, rest) \<in> set (rx_run (Seq (Grp (Rep True 1 (Some 2) Digit)) (Seq (Lit ''/'')
                  (Seq (Grp (Rep True 4 (Some 4) Digit)) Eps))) s2)"
    and e2: "b1 = a2 @ b2"
    by blast
  from in_rx_run_Seq[OF r2] obtain a3 s3 b3 where
    3: "(a3, s3) \<in> set (rx_run (Grp (Rep True 1 (Some 2) Digit)) s2)"
    and r3: "(b3, rest) \<in> set (rx_run (Seq (Lit ''/'')
                  (Seq (Grp (Rep True 4 (Some 4) Digit)) Eps)) s3)"
    and e3: "b2 = a3 @ b3"
    by blast
  from in_rx_run_Seq[OF r3] obtain a4 s4 b4 where 4: "(a4, s4) \<in> set (rx_run (Lit ''/'') s3)"
    and r4: "(b4, rest) \<in> set (rx_run (Seq (Grp (Rep True 4 (Some 4) Digit)) Eps) s4)"
    and e4: "b3 = a4 @ b4"
    by blast
  from in_rx_run_Seq[OF r4] obtain a5 s5 b5 where
    5: "(a5, s5) \<in> set (rx_run (Grp (Rep True 4 (Some 4) Digit)) s4)"
    and r5: "(b5, rest) \<in> set (rx_run Eps s5)"
    and e5: "b4 = a5 @ b5"
    by blast
  from in_rx_run_Grp_Rep[OF 1] obtain d where d: "a1 = [d]" "digit_group 1 2 d" by blast
  from in_rx_run_Grp_Rep[OF 3] obtain m where m: "a3 = [m]" "digit_group 1 2 m" by blast
  from in_rx_run_Grp_Rep[OF 5] obtain y where y: "a5 = [y]" "digit_group 4 4 y" by blast
  from in_rx_run_Lit[OF 2] in_rx_run_Lit[OF 4] in_rx_run_Eps[OF r5] e1 e2 e3 e4 e5 d(1) m(1) y(1)
  have "caps = [d, m, y]" by simp
  with d(2) m(2) y(2) show ?thesis by blast
qed

lemma digit_val_le: "is_digit c \<Longrightarrow> digit_val c \<le> 9"
proof -
  assume "is_digit c"
  then have "(of_char c :: nat) \<le> 57"
    by (simp add: is_digit_def less_eq_char_def)
  then show ?thesis by (simp add: digit_val_def)
qed

lemma foldl_digits_less:
  "list_all is_digit s \<Longrightarrow>
     foldl (\<lambda>n c. 10 * n + int (digit_val c)) a s < (a + 1) * 10 ^ length s"
proof (induction s arbitrary: a)
  case Nil
  then show ?case by simp
next
  case (Cons c cs)
  then have "digit_val c \<le> 9" and cs: "list_all is_digit cs"
    using digit_val_le by auto
  from Cons.IH[OF cs, of "10 * a + int (digit_val c)"]
  have "foldl (\<lambda>n c. 10 * n + int (digit_val c)) (10 * a + int (digit_val c)) cs
          < (10 * a + int (digit_val c) + 1) * 10 ^ length cs" .
  also have "\<dots> \<le> (10 * a + 10) * 10 ^ length cs"
    using \<open>digit_val c \<le> 9\<close> by (intro mult_right_mono) auto
  also have "\<dots> = (a + 1) * 10 ^ length (c # cs)" by (simp add: algebra_simps)
  finally show ?case by simp
qed

lemma digit_group_bound:
  assumes "digit_group mn mx s"
  shows "digits_val s < 10 ^ mx" and "s \<noteq> [] \<or> mn = 0" and "list_all is_digit s"
proof -
  from assms have d: "list_all is_digit s" and l: "length s \<le> mx" and m: "mn \<le> length s"
    by (simp_all add: digit_group_def)
  from foldl_digits_less[OF d, of 0] have "digits_val s < 10 ^ length s"
    by (simp add: digits_val_def)
  also have "\<dots> \<le> 10 ^ mx" using l by (intro power_increasing) auto
  finally show "digits_val s < 10 ^ mx" .
  show "s \<noteq> [] \<or> mn = 0" using m by auto
  show "list_all is_digit s" by (rule d)
qed

lemma ToIntegerOrInfinity_of_int: "ToIntegerOrInfinity (of_int n) = n"
  unfolding ToIntegerOrInfinity_def
  by (simp only: of_int_less_0_iff floor_of_int of_int_minus[symmetric] if_cancel split: if_splits)
     auto

lemma month_start_bounds:
  assumes "mn < 12"
  shows "0 \<le> month_start leap mn \<and> month_start leap mn \<le> 335"
proof -
  from assms have "mn = 0 \<or> mn = 1 \<or> mn = 2 \<or> mn = 3 \<or> mn = 4 \<or> mn = 5 \<or> mn = 6 \<or> mn = 7
      \<or> mn = 8 \<or> mn = 9 \<or> mn = 10 \<or> mn = 11"
    by arith
  then show ?thesis by (elim disjE) (simp_all add: month_start_def)
qed

lemma DayFromYear_bounds:
  assumes "99 \<le> y" and "y \<le> 10007"
  shows "- 700000 \<le> DayFromYear y \<and> DayFromYear y \<le> 3000000"
proof -
  define a where "a = (y - 1969) div 4"
  define b where "b = (y - 1901) div 100"
  define c where "c = (y - 1601) div 400"
  have "- 468 \<le> a \<and> a \<le> 2010" unfolding a_def using assms by linarith
  moreover have "- 19 \<le> b \<and> b \<le> 82" unfolding b_def using assms by linarith
  moreover have "- 4 \<le> c \<and> c \<le> 22" unfolding c_def using assms by linarith
  moreover have "DayFromYear y = 365 * (y - 1970) + a - b + c"
    by (simp add: DayFromYear_def a_def b_def c_def)
  ultimately show ?thesis using assms by auto
qed

lemma MakeDay_bounds:
  assumes "0 \<le> y" "y \<le> 9999" "- 1 \<le> m" "m \<le> 98" "0 \<le> d" "d \<le> 99"
  shows "\<bar>MakeDay (full_year y) m d * msPerDay\<bar> \<le> 8640000000000000"
proof -
  let ?ym = "full_year y + m div 12"
  have fy: "100 \<le> full_year y \<and> full_year y \<le> 9999"
    using assms(1,2) by (auto simp: full_year_def)
  have md: "- 1 \<le> m div 12 \<and> m div 12 \<le> 8"
    using assms(3,4) by linarith
  from fy md have ym: "99 \<le> ?ym" "?ym \<le> 10007" by linarith+
  have "nat (m mod 12) < 12" by simp
  from month_start_bounds[OF this, of "InLeapYear ?ym"] DayFromYear_bounds[OF ym] assms(5,6)
  have "- 700001 \<le> MakeDay (full_year y) m d \<and> MakeDay (full_year y) m d \<le> 3000500"
    unfolding MakeDay_def Let_def by linarith
  then show ?thesis unfolding msPerDay_def by linarith
qed

lemma ToNumber_digits:
  assumes "digit_group mn mx s" and "0 < mn" and "mx \<le> 15"
  shows "ToNumber s = Num (of_int (digits_val s))"
proof -
  from digit_group_bound[OF assms(1)] assms(2)
  have s: "s \<noteq> []" "list_all is_digit s" by auto
  from digit_group_bound(1)[OF assms(1)] have "digits_val s < 10 ^ mx" .
  also have "(10::int) ^ mx \<le> 10 ^ 15" using assms(3) by (intro power_increasing) auto
  finally have "\<bar>digits_val s\<bar> < 2 ^ 53" using digits_val_nonneg[of s] by simp
  from to_double_int[OF this] s show ?thesis by (simp add: ToNumber_def)
qed

lemma js_minus1_of_int:
  assumes "0 \<le> n" and "n < 10 ^ 15"
  shows "js_minus1 (Num (of_int n)) = Num (of_int (n - 1))"
proof -
  from assms have "\<bar>n - 1\<bar> < 2 ^ 53" by simp
  from to_double_int[OF this] show ?thesis by simp
qed

lemma new_Date_digits:
  assumes "digit_group 4 4 y" and "digit_group 1 2 m" and "digit_group 1 2 d"
  shows "new_Date (ToNumber y) (js_minus1 (ToNumber m)) (ToNumber d)
           = TimeValue (MakeDay (full_year (digits_val y)) (digits_val m - 1) (digits_val d)
                          * msPerDay)"
proof -
  have y: "ToNumber y = Num (of_int (digits_val y))"
    and m: "ToNumber m = Num (of_int (digits_val m))"
    and d: "ToNumber d = Num (of_int (digits_val d))"
    using assms by (auto intro: ToNumber_digits)
  from digit_group_bound(1)[OF assms(1)] have yb: "digits_val y < 10 ^ 4" .
  from digit_group_bound(1)[OF assms(2)] have mb: "digits_val m < 10 ^ 2" .
  from digit_group_bound(1)[OF assms(3)] have db: "digits_val d < 10 ^ 2" .
  from mb have m1: "js_minus1 (Num (of_int (digits_val m))) = Num (of_int (digits_val m - 1))"
    by (intro js_minus1_of_int digits_val_nonneg) simp
  have b: "\<bar>MakeDay (full_year (digits_val y)) (digits_val m - 1) (digits_val d) * msPerDay\<bar>
             \<le> 8640000000000000"
    using yb mb db digits_val_nonneg[of y] digits_val_nonneg[of m] digits_val_nonneg[of d]
    by (intro MakeDay_bounds) auto
  show ?thesis
    unfolding y m d m1 new_Date.simps ToIntegerOrInfinity_of_int Let_def
    using b by (simp add: full_year_def)
qed

lemma parse99Receipt_datetime:
  assumes "parse99Receipt t h = Some r" and "rx_match date99_rx t = Some [g1, g2, g3]"
  shows "datetime r = Some (new_Date (ToNumber g3) (js_minus1 (ToNumber g2)) (ToNumber g1))"
  using assms
  by (auto simp: parse99Receipt_def Let_def split: option.splits list.splits if_splits)

text \<open>
  C6, as the code has it: the second parser checks no range. Whatever day, month and year
  the date pattern captures, the \<open>Date\<close> constructor carries a day or month out of range
  over into the following (or preceding) months and years, so the timestamp of the ride
  is a valid time value, the one \<open>MakeDay\<close> computes, and never an invalid date.
\<close>

theorem parse99_date_carries_over:
  assumes "parse99Receipt t h = Some r"
      and "rx_match date99_rx t = Some [day, month, year]"
  shows "datetime r = Some (TimeValue (MakeDay (full_year (digits_val year))
                                (digits_val month - 1) (digits_val day) * msPerDay))
         \<and> datetime r \<noteq> Some InvalidDate"
proof -
  from date99_caps[OF assms(2)] have
    g: "digit_group 1 2 day" "digit_group 1 2 month" "digit_group 4 4 year"
    by auto
  from parse99Receipt_datetime[OF assms] new_Date_digits[OF g(3) g(2) g(1)]
  show ?thesis by simp
qed

theorem parse99_date_carries_over_witness:
  "parse99Receipt ''R$ 10 31/02/2024'' [] = Some ride99_feb31
   \<and> rx_match date99_rx ''R$ 10 31/02/2024'' = Some [''31'', ''02'', ''2024'']
   \<and> datetime ride99_feb31
       = Some (TimeValue (MakeDay (full_year (digits_val ''2024''))
                 (digits_val ''02'' - 1) (digits_val ''31'') * msPerDay))
   \<and> datetime ride99_feb31 \<noteq> Some InvalidDate"
proof -
  have h1: "parse99Receipt ''R$ 10 31/02/2024'' [] = Some ride99_feb31"
    by code_simp
  have h2: "rx_match date99_rx ''R$ 10 31/02/2024'' = Some [''31'', ''02'', ''2024'']"
    by code_simp
  from h1 h2 parse99_date_carries_over[OF h1 h2] show ?thesis by blast
qed

text \<open>
  The claim C6 says that a day out of range gives an invalid timestamp. The 31st of
  February 2024 gives the valid time value of the 2nd of March 2024.
\<close>

theorem feb31_is_march2:
  "parse99Receipt ''R$ 10 31/02/2024'' []
     = Some \<lparr>platform = ''99'', val = Some (Num 10), origin = None, destination = None,
              datetime = Some (TimeValue 1709337600000), raw_email = None\<rparr>
   \<and> new_Date (Num 2024) (Num 2) (Num 2) = TimeValue 1709337600000"
  by code_simp

lemma parseUberReceipt_unknown_month:
  assumes "parseUberReceipt t h = Some r"
      and "rx_match uber_date_rx t = Some [d, mo, y]"
      and "months (toLowerCase mo) = None"
  shows "datetime r = Some InvalidDate"
  using assms
  by (auto simp: parseUberReceipt_def Let_def month_number_def
           split: option.splits list.splits if_splits)

lemma parseUberReceipt_None_iff:
  "parseUberReceipt t h = None
     \<longleftrightarrow> \<not> truthy_num (val (set_value (match_value t h) (new_ride ''uber'')))"
  using parseUberReceipt_truthy[of t h] parseUberReceipt_Some[of t h]
  by (cases "parseUberReceipt t h") auto

lemma parse99Receipt_None_iff:
  "parse99Receipt t h = None
     \<longleftrightarrow> \<not> truthy_num (val (set_value (match_value t h) (new_ride ''99'')))"
  using parse99Receipt_truthy[of t h] parse99Receipt_Some[of t h]
  by (cases "parse99Receipt t h") auto

text \<open>
  C5 at the input \<open>R$ 10,00 5 de abc de 2024\<close>: the date pattern matches, \<open>abc\<close> is no name
  of the month table, and the ride carries a timestamp, an invalid date; the claim says
  that the timestamp is left unset.
\<close>

theorem uber_unknown_month_invalid_date:
  "rx_match uber_date_rx ''R$ 10,00 5 de abc de 2024'' = Some [''5'', ''abc'', ''2024'']
   \<and> months ''abc'' = None
   \<and> parseUberReceipt ''R$ 10,00 5 de abc de 2024'' [] = Some ride_uber_abc
   \<and> datetime ride_uber_abc = Some InvalidDate"
  by code_simp

text \<open>
  C4 at the input \<open>R$ 0,00\<close>: the value pattern matches and the value is the number 0,
  yet both parsers return nothing; the claim says that a parser returns a ride exactly
  when a value was found.
\<close>

theorem zero_fare_rejected:
  "match_value ''R$ 0,00'' [] = Some [''0,00'']
   \<and> val (set_value (match_value ''R$ 0,00'' []) (new_ride ''uber'')) = Some (Num 0)
   \<and> parseUberReceipt ''R$ 0,00'' [] = None
   \<and> parse99Receipt ''R$ 0,00'' [] = None"
  by code_simp

end
